theory Spec2Isabelle
  imports Complex_Main "HOL-Library.Log_Nat"
begin

section \<open>Strings and characters\<close>

text \<open>
  A Python \<^verbatim>\<open>str\<close> is modelled as a \<^typ>\<open>string\<close>: a list of characters, each a code
  point below 256. Among these code points the Unicode decimal digits (category Nd, what
  \<^verbatim>\<open>\d\<close> matches and what \<^verbatim>\<open>int\<close> and \<^verbatim>\<open>float\<close> accept as digits) are exactly
  \<^verbatim>\<open>0\<close> to \<^verbatim>\<open>9\<close>, and the whitespace characters (what \<^verbatim>\<open>str.strip\<close> and
  \<^verbatim>\<open>str.isspace\<close> treat as space) are the code points 9 to 13, 28 to 32, 133 and 160.
\<close>

definition is_digit :: "char \<Rightarrow> bool" where
  "is_digit c = (c \<in> set ''0123456789'')"

definition is_space :: "char \<Rightarrow> bool" where
  "is_space c = ((of_char c :: nat) \<in> {9, 10, 11, 12, 13, 28, 29, 30, 31, 32, 133, 160})"

definition digit_value :: "char \<Rightarrow> nat" where
  "digit_value c = of_char c - 48"

text \<open>The base-10 value of a string of digits, most significant digit first.\<close>

definition decimal :: "string \<Rightarrow> nat" where
  "decimal ds = foldl (\<lambda>acc c. 10 * acc + digit_value c) 0 ds"

text \<open>\<^verbatim>\<open>str.strip()\<close>: leading and trailing whitespace removed.\<close>

definition py_strip :: "string \<Rightarrow> string" where
  "py_strip s = rev (dropWhile is_space (rev (dropWhile is_space s)))"

text \<open>
  What \<^verbatim>\<open>int\<close> and \<^verbatim>\<open>float\<close> do to a string before they read the number. A string with
  a code point above 127 is first rewritten (CPython's
  \<^verbatim>\<open>_PyUnicode_TransformDecimalAndSpaceToASCII\<close>): code points below 127 stay, a whitespace
  character becomes a space, and at the first other character a \<^verbatim>\<open>?\<close> is put and the rest
  dropped; a string of ASCII characters is left as it is. Then the whitespace of C
  (\<^verbatim>\<open>Py_ISSPACE\<close>: code points 9 to 13 and 32, not 28 to 31) is removed at both ends.
\<close>

definition is_c_space :: "char \<Rightarrow> bool" where
  "is_c_space c = ((of_char c :: nat) \<in> {9, 10, 11, 12, 13, 32})"

fun transform :: "string \<Rightarrow> string" where
  "transform [] = []"
| "transform (c # r) =
     (if (of_char c :: nat) < 127 then c # transform r
      else if is_space c then CHR '' '' # transform r
      else ''?'')"

definition to_ascii :: "string \<Rightarrow> string" where
  "to_ascii s = (if list_all (\<lambda>c. (of_char c :: nat) < 128) s then s else transform s)"

definition num_strip :: "string \<Rightarrow> string" where
  "num_strip s = rev (dropWhile is_c_space (rev (dropWhile is_c_space (to_ascii s))))"

section \<open>Errors\<close>

text \<open>
  Every exception the two functions can raise is a value. \<open>HTTPStatusError\<close> carries the
  status code; \<open>TransportError\<close> stands for what \<^verbatim>\<open>session.get\<close> itself raises;
  \<open>AttributeError\<close> is the access of an attribute of \<^verbatim>\<open>None\<close>; \<open>ValidationError\<close>
  is raised by a pydantic model constructor.
\<close>

datatype error =
    HTTPStatusError nat
  | TransportError
  | AttributeError
  | AssertionError
  | ValueError
  | ValidationError

section \<open>The regular expression\<close>

text \<open>
  The pattern \<^verbatim>\<open>r'Set (\d+) : (\d+)x(\d+)'\<close> is a sequence of two kinds of items: a literal
  character, and the capture group \<^verbatim>\<open>(\d+)\<close>.
\<close>

datatype item = Chr char | DigitsGroup

text \<open>
  Matching anchored at the start of the string, as the backtracking engine of \<^verbatim>\<open>re\<close>
  does it: \<^verbatim>\<open>\d+\<close> is greedy, so it first takes the longest run of digits and gives
  characters back one at a time, down to one digit, until the rest of the pattern matches.
  The result is the list of captured groups and the text left after the match.
\<close>

fun match_items :: "item list \<Rightarrow> string \<Rightarrow> (string list \<times> string) option"
  and try_digits :: "item list \<Rightarrow> string \<Rightarrow> nat \<Rightarrow> (string list \<times> string) option"
where
  "match_items [] s = Some ([], s)"
| "match_items (Chr c # p) s =
     (case s of [] \<Rightarrow> None | d # r \<Rightarrow> if d = c then match_items p r else None)"
| "match_items (DigitsGroup # p) s = try_digits p s (length (takeWhile is_digit s))"
| "try_digits p s 0 = None"
| "try_digits p s (Suc k) =
     (case match_items p (drop (Suc k) s) of
        Some (gs, rest) \<Rightarrow> Some (take (Suc k) s # gs, rest)
      | None \<Rightarrow> try_digits p s k)"

text \<open>
  \<^verbatim>\<open>pattern.findall\<close>: scan from left to right; where the pattern matches, record the groups
  and go on after the match (one character further when the match is empty); where it does
  not, move one character on.
\<close>

function findall :: "item list \<Rightarrow> string \<Rightarrow> string list list" where
  "findall p s =
     (case match_items p s of
        Some (gs, rest) \<Rightarrow>
          gs # (if length rest < length s then findall p rest
                else (case s of [] \<Rightarrow> [] | _ # cs \<Rightarrow> findall p cs))
      | None \<Rightarrow> (case s of [] \<Rightarrow> [] | _ # cs \<Rightarrow> findall p cs))"
  by pat_completeness auto
termination
  by (relation "measure (\<lambda>(p, s). length s)") auto

declare findall.simps [simp del]

definition pattern :: "item list" where
  "pattern = [Chr CHR ''S'', Chr CHR ''e'', Chr CHR ''t'', Chr CHR '' '', DigitsGroup,
              Chr CHR '' '', Chr CHR '':'', Chr CHR '' '', DigitsGroup,
              Chr CHR ''x'', DigitsGroup]"

section \<open>Numbers from strings\<close>

text \<open>
  \<^verbatim>\<open>sign\<close> and \<^verbatim>\<open>digitpart ::= digit (["_"] digit)*\<close> of the grammar that \<^verbatim>\<open>int\<close>
  and \<^verbatim>\<open>float\<close> accept. \<open>digitpart\<close> returns the digits without the underscores and the
  text that follows them.
\<close>

definition split_sign :: "string \<Rightarrow> bool \<times> string" where
  "split_sign s =
     (case s of
        [] \<Rightarrow> (False, [])
      | c # r \<Rightarrow> if c = CHR ''-'' then (True, r) else if c = CHR ''+'' then (False, r)
                 else (False, s))"

fun digitpart_rest :: "string \<Rightarrow> string \<times> string" where
  "digitpart_rest [] = ([], [])"
| "digitpart_rest [c] = (if is_digit c then ([c], []) else ([], [c]))"
| "digitpart_rest (c # d # r) =
     (if is_digit c then apfst (Cons c) (digitpart_rest (d # r))
      else if c = CHR ''_'' \<and> is_digit d then apfst (Cons d) (digitpart_rest r)
      else ([], c # d # r))"

definition digitpart :: "string \<Rightarrow> (string \<times> string) option" where
  "digitpart s =
     (case s of
        [] \<Rightarrow> None
      | c # r \<Rightarrow> if is_digit c then Some (apfst (Cons c) (digitpart_rest r)) else None)"

text \<open>
  \<^verbatim>\<open>int(s)\<close> for a string: whitespace removed as above, an optional sign, one digitpart and
  nothing else. CPython bounds the number of digits it converts (\<^verbatim>\<open>sys.get_int_max_str_digits()\<close>,
  4300 unless configured otherwise, 0 for no bound; strings of at most 640 digits are never
  refused) and raises \<^verbatim>\<open>ValueError\<close> beyond it. The bound is the parameter \<open>maxd\<close>.
\<close>

definition default_max_str_digits :: nat where
  "default_max_str_digits = 4300"

definition exceeds_limit :: "nat \<Rightarrow> string \<Rightarrow> bool" where
  "exceeds_limit maxd ds = (640 < length ds \<and> 0 < maxd \<and> maxd < length ds)"

definition py_int :: "nat \<Rightarrow> string \<Rightarrow> error + int" where
  "py_int maxd s =
     (let (neg, u) = split_sign (num_strip s) in
      case digitpart u of
        Some (ds, []) \<Rightarrow>
          if exceeds_limit maxd ds then Inl ValueError
          else Inr (if neg then - int (decimal ds) else int (decimal ds))
      | _ \<Rightarrow> Inl ValueError)"

subsection \<open>Floats\<close>

text \<open>
  A \<^verbatim>\<open>float\<close> is an IEEE 754 binary64 value: a finite value, given by the rational it
  denotes (the two zeros are not told apart), an infinity, or not-a-number.
\<close>

datatype pyfloat = Finite rat | PosInf | NegInf | NaN

definition float_neg :: "pyfloat \<Rightarrow> pyfloat" where
  "float_neg f = (case f of Finite v \<Rightarrow> Finite (- v) | PosInf \<Rightarrow> NegInf | NegInf \<Rightarrow> PosInf | NaN \<Rightarrow> NaN)"

definition pow2 :: "int \<Rightarrow> rat" where
  "pow2 k = (if 0 \<le> k then 2 ^ nat k else 1 / 2 ^ nat (- k))"

text \<open>For \<open>q > 0\<close>, the exponent \<open>e\<close> with \<open>2\<^sup>e \<le> q < 2\<^sup>e\<^sup>+\<^sup>1\<close>.\<close>

definition ilog2 :: "rat \<Rightarrow> int" where
  "ilog2 q =
     (let (a, b) = quotient_of q; d = bitlen a - bitlen b in
      if pow2 d \<le> q then d else d - 1)"

definition round_half_even :: "rat \<Rightarrow> int" where
  "round_half_even x =
     (let n = \<lfloor>x\<rfloor>; r = x - of_int n in
      if r < 1 / 2 then n else if 1 / 2 < r then n + 1 else if even n then n else n + 1)"

text \<open>
  The binary64 value nearest to a rational \<open>q \<ge> 0\<close>, ties to even: 53 significant bits,
  the spacing of the subnormals (\<open>2\<^sup>-\<^sup>1\<^sup>0\<^sup>7\<^sup>4\<close>) below \<open>2\<^sup>-\<^sup>1\<^sup>0\<^sup>2\<^sup>2\<close>, and infinity when the
  rounded value reaches \<open>2\<^sup>1\<^sup>0\<^sup>2\<^sup>4\<close>.
\<close>

definition round64 :: "rat \<Rightarrow> pyfloat" where
  "round64 q =
     (if q = 0 then Finite 0
      else let e = max (ilog2 q) (- 1022);
               quantum = pow2 (e - 52);
               v = of_int (round_half_even (q / quantum)) * quantum
           in if pow2 1024 \<le> v then PosInf else Finite v)"

text \<open>
  The unsigned part of a float literal:
  \<^verbatim>\<open>number ::= [digitpart] "." digitpart | digitpart ["."]\<close> gives the digits before and
  after the point, and \<^verbatim>\<open>exponent ::= ("e" | "E") [sign] digitpart\<close>, which must end the
  string, the power of ten.
\<close>

definition parse_number :: "string \<Rightarrow> (string \<times> string \<times> string) option" where
  "parse_number u =
     (case digitpart u of
        Some (ip, r1) \<Rightarrow>
          (case r1 of
             [] \<Rightarrow> Some (ip, [], [])
           | c # r2 \<Rightarrow>
               if c = CHR ''.'' then
                 (case digitpart r2 of Some (fp, r3) \<Rightarrow> Some (ip, fp, r3) | None \<Rightarrow> Some (ip, [], r2))
               else Some (ip, [], r1))
      | None \<Rightarrow>
          (case u of
             [] \<Rightarrow> None
           | c # r2 \<Rightarrow>
               if c = CHR ''.'' then
                 (case digitpart r2 of Some (fp, r3) \<Rightarrow> Some ([], fp, r3) | None \<Rightarrow> None)
               else None))"

definition parse_exponent :: "string \<Rightarrow> int option" where
  "parse_exponent r =
     (case r of
        [] \<Rightarrow> Some 0
      | c # r' \<Rightarrow>
          if c = CHR ''e'' \<or> c = CHR ''E'' then
            (let (neg, r'') = split_sign r' in
             case digitpart r'' of
               Some (ds, []) \<Rightarrow> Some (if neg then - int (decimal ds) else int (decimal ds))
             | _ \<Rightarrow> None)
          else None)"

definition lower :: "string \<Rightarrow> string" where
  "lower s = map (\<lambda>c. if of_char c \<in> {65 .. (90::nat)} then char_of (of_char c + (32::nat)) else c) s"

text \<open>
  \<^verbatim>\<open>float(s)\<close> for a string: whitespace removed as above, an optional sign, then \<^verbatim>\<open>inf\<close>,
  \<^verbatim>\<open>infinity\<close> or \<^verbatim>\<open>nan\<close> in any case, or a decimal number, which is rounded correctly.
\<close>

definition py_float :: "string \<Rightarrow> error + pyfloat" where
  "py_float s =
     (let (neg, u) = split_sign (num_strip s);
          sgn = (\<lambda>f. if neg then float_neg f else f) in
      if lower u = ''inf'' \<or> lower u = ''infinity'' then Inr (sgn PosInf)
      else if lower u = ''nan'' then Inr NaN
      else
        (case parse_number u of
           None \<Rightarrow> Inl ValueError
         | Some (ip, fp, r) \<Rightarrow>
             (case parse_exponent r of
                None \<Rightarrow> Inl ValueError
              | Some ex \<Rightarrow>
                  let m = of_int (int (decimal (ip @ fp))); k = ex - int (length fp) in
                  Inr (sgn (round64 (if 0 \<le> k then m * 10 ^ nat k else m / 10 ^ nat (- k)))))))"

section \<open>The data model\<close>

record LiftingLog =
  set_number :: int
  weight :: pyfloat
  reps :: int

record ExerciseBlock =
  exercise_name :: string
  one_rep_max :: pyfloat
  lifting_logs :: "LiftingLog list"

record JEFITClientConfig =
  user_base_url :: string
  logs_base_url :: string

definition USER_BASE_URL :: string where
  "USER_BASE_URL = ''https://www.jefit.com/user''"

definition LOGS_BASE_URL :: string where
  "LOGS_BASE_URL = ''https://www.jefit.com/members/user-logs/log/''"

definition DEFAULT_JEFIT_CONFIG :: JEFITClientConfig where
  "DEFAULT_JEFIT_CONFIG = \<lparr>user_base_url = USER_BASE_URL, logs_base_url = LOGS_BASE_URL\<rparr>"

text \<open>
  The validators of pydantic (version 1) for a string given to an \<^verbatim>\<open>int\<close> or a \<^verbatim>\<open>float\<close>
  field. \<^verbatim>\<open>int_validator\<close> refuses a string of more than \<^verbatim>\<open>max_str_int\<close> characters before
  it calls \<^verbatim>\<open>int\<close>; both turn the \<^verbatim>\<open>ValueError\<close> of the conversion into their own error,
  which the constructor reports as a \<^verbatim>\<open>ValidationError\<close>.
\<close>

definition max_str_int :: nat where
  "max_str_int = 4300"

definition int_validator :: "nat \<Rightarrow> string \<Rightarrow> error + int" where
  "int_validator maxd v =
     (if max_str_int < length v then Inl ValidationError
      else case py_int maxd v of Inl e \<Rightarrow> Inl ValidationError | Inr n \<Rightarrow> Inr n)"

definition float_validator :: "string \<Rightarrow> error + pyfloat" where
  "float_validator v = (case py_float v of Inl e \<Rightarrow> Inl ValidationError | Inr f \<Rightarrow> Inr f)"

text \<open>
  The constructor \<^verbatim>\<open>LiftingLog(set_number=set_, weight=weight, reps=reps)\<close> called with the
  three captured strings: each field is validated, and one \<^verbatim>\<open>ValidationError\<close> is raised
  when any of the three validations fails.
\<close>

definition new_LiftingLog :: "nat \<Rightarrow> string \<Rightarrow> string \<Rightarrow> string \<Rightarrow> error + LiftingLog" where
  "new_LiftingLog maxd set_s weight_s reps_s =
     (case (int_validator maxd set_s, float_validator weight_s, int_validator maxd reps_s) of
        (Inr n, Inr w, Inr r) \<Rightarrow> Inr \<lparr>set_number = n, weight = w, reps = r\<rparr>
      | _ \<Rightarrow> Inl ValidationError)"

section \<open>The log-line parser\<close>

text \<open>
  The list comprehension of \<^verbatim>\<open>parse_to_lifting_log\<close>: one record for each match, in the
  order of the matches; the first constructor that raises ends the comprehension. Each match
  is unpacked into three names, which raises \<^verbatim>\<open>ValueError\<close> on any other number of groups.
\<close>

fun build_logs :: "nat \<Rightarrow> string list list \<Rightarrow> error + LiftingLog list" where
  "build_logs maxd [] = Inr []"
| "build_logs maxd (g # gs) =
     (case g of
        [set_s, weight_s, reps_s] \<Rightarrow>
          (case new_LiftingLog maxd set_s weight_s reps_s of
             Inl e \<Rightarrow> Inl e
           | Inr l \<Rightarrow> (case build_logs maxd gs of Inl e \<Rightarrow> Inl e | Inr ls \<Rightarrow> Inr (l # ls)))
      | _ \<Rightarrow> Inl ValueError)"

definition parse_to_lifting_log :: "nat \<Rightarrow> string \<Rightarrow> error + LiftingLog list" where
  "parse_to_lifting_log maxd liftinglogs = build_logs maxd (findall pattern liftinglogs)"

section \<open>The parsed page\<close>

text \<open>
  The tree that \<^verbatim>\<open>bs4.BeautifulSoup(response.content, "html.parser")\<close> builds: a tag has a
  name, attributes and children; a text node is a \<^verbatim>\<open>NavigableString\<close>; \<open>Comment\<close> stands
  for the string nodes that \<^verbatim>\<open>get_text\<close> leaves out (comments, declarations). The value
  of a multi-valued attribute such as \<^verbatim>\<open>class\<close> is the list of its whitespace-separated
  parts, that of any other attribute a string.
\<close>

datatype attr_value = AttrStr string | AttrList "string list"

datatype node =
    Tag string "(string \<times> attr_value) list" "node list"
  | NavigableString string
  | Comment string

text \<open>\<^verbatim>\<open>.descendants\<close>: every node below a node, in document order.\<close>

fun descendants :: "node \<Rightarrow> node list" where
  "descendants (Tag name attrs cs) = concat (map (\<lambda>c. c # descendants c) cs)"
| "descendants (NavigableString s) = []"
| "descendants (Comment s) = []"

fun join_space :: "string list \<Rightarrow> string" where
  "join_space [] = []"
| "join_space [x] = x"
| "join_space (x # y # r) = x @ '' '' @ join_space (y # r)"

text \<open>
  How a search string is matched against an attribute value: a string value must equal it; a
  list value matches when one of its parts equals it or the parts joined by single spaces do.
\<close>

fun attr_matches :: "attr_value \<Rightarrow> string \<Rightarrow> bool" where
  "attr_matches (AttrStr v) m = (v = m)"
| "attr_matches (AttrList vs) m = (m \<in> set vs \<or> join_space vs = m)"

definition tag_matches :: "string option \<Rightarrow> (string \<times> string) list \<Rightarrow> node \<Rightarrow> bool" where
  "tag_matches name wanted nd =
     (case nd of
        Tag n attrs cs \<Rightarrow>
          (case name of None \<Rightarrow> True | Some m \<Rightarrow> n = m) \<and>
          list_all (\<lambda>(k, v). case map_of attrs k of None \<Rightarrow> False | Some a \<Rightarrow> attr_matches a v)
            wanted
      | _ \<Rightarrow> False)"

text \<open>
  \<^verbatim>\<open>findAll(name, attrs)\<close> returns the matching descendants in document order,
  \<^verbatim>\<open>find(name, attrs)\<close> the first of them or \<^verbatim>\<open>None\<close>.
\<close>

definition soup_findAll :: "string option \<Rightarrow> (string \<times> string) list \<Rightarrow> node \<Rightarrow> node list" where
  "soup_findAll name wanted nd = filter (tag_matches name wanted) (descendants nd)"

definition soup_find :: "string option \<Rightarrow> (string \<times> string) list \<Rightarrow> node \<Rightarrow> node option" where
  "soup_find name wanted nd =
     (case soup_findAll name wanted nd of [] \<Rightarrow> None | x # _ \<Rightarrow> Some x)"

text \<open>\<^verbatim>\<open>get_text()\<close>: the text nodes below a tag, concatenated.\<close>

definition get_text :: "node \<Rightarrow> string" where
  "get_text nd =
     (case nd of
        NavigableString s \<Rightarrow> s
      | _ \<Rightarrow> concat (map (\<lambda>d. case d of NavigableString s \<Rightarrow> s | _ \<Rightarrow> []) (descendants nd)))"

section \<open>The client\<close>

record request =
  url :: string
  params :: "(string \<times> string) list"

record response =
  status_code :: nat
  content :: string

record JEFITClient =
  url_config :: JEFITClientConfig

text \<open>
  What the function depends on outside the repository: the remote site behind
  \<^verbatim>\<open>session.get\<close> (a response, or the exception the transport raises), the HTML parser,
  and the interpreter's bound on integer digits.
\<close>

record environment =
  send :: "request \<Rightarrow> error + response"
  html_parser :: "string \<Rightarrow> node"
  int_max_str_digits :: nat

text \<open>\<^verbatim>\<open>response.raise_for_status()\<close> raises unless the status is a success (2xx).\<close>

definition is_success :: "nat \<Rightarrow> bool" where
  "is_success code = (200 \<le> code \<and> code \<le> 299)"

definition raise_for_status :: "response \<Rightarrow> error + unit" where
  "raise_for_status r =
     (if is_success (status_code r) then Inr () else Inl (HTTPStatusError (status_code r)))"

text \<open>The body of the loop over the exercise blocks, lines 76 to 82.\<close>

definition exercise_block :: "nat \<Rightarrow> node \<Rightarrow> error + ExerciseBlock" where
  "exercise_block maxd exercise =
     (case soup_find (Some ''div'') [(''class'', ''fixedLogBar'')] exercise of
        None \<Rightarrow> Inl AttributeError
      | Some bar \<Rightarrow>
          (case soup_findAll (Some ''div'') [(''class'', ''fixedLogBarBlock align-top'')] bar of
             [picture, name, onerepmax, liftinglogs] \<Rightarrow>
               (case soup_find (Some ''a'') [] name of
                  None \<Rightarrow> Inl AttributeError
                | Some a \<Rightarrow>
                    (case py_float (get_text onerepmax) of
                       Inl e \<Rightarrow> Inl e
                     | Inr orm \<Rightarrow>
                         (case parse_to_lifting_log maxd (get_text liftinglogs) of
                            Inl e \<Rightarrow> Inl e
                          | Inr logs \<Rightarrow>
                              Inr \<lparr>exercise_name = py_strip (get_text a), one_rep_max = orm,
                                   lifting_logs = logs\<rparr>)))
           | _ \<Rightarrow> Inl AssertionError))"

text \<open>
  The loop itself: \<open>exercise_blocks\<close> is the list built so far; an exception in one block
  ends the loop and the function.
\<close>

fun exercises_loop :: "nat \<Rightarrow> node list \<Rightarrow> ExerciseBlock list \<Rightarrow> error + ExerciseBlock list" where
  "exercises_loop maxd [] exercise_blocks = Inr exercise_blocks"
| "exercises_loop maxd (exercise # exercises) exercise_blocks =
     (case exercise_block maxd exercise of
        Inl e \<Rightarrow> Inl e
      | Inr b \<Rightarrow> exercises_loop maxd exercises (exercise_blocks @ [b]))"

text \<open>
  \<^verbatim>\<open>get_workout_from_date\<close>. The list of requests sent so far is threaded through, so that
  the single \<^verbatim>\<open>session.get\<close> shows in the result.
\<close>

definition get_workout_from_date ::
  "environment \<Rightarrow> JEFITClient \<Rightarrow> string \<Rightarrow> string \<Rightarrow> request list \<Rightarrow>
   (error + ExerciseBlock list) \<times> request list" where
  "get_workout_from_date env self username date sent =
     (let req = \<lparr>url = logs_base_url (url_config self),
                 params = [(''xid'', username), (''dd'', date)]\<rparr>;
          sent' = sent @ [req]
      in case send env req of
           Inl e \<Rightarrow> (Inl e, sent')
         | Inr response \<Rightarrow>
             (case raise_for_status response of
                Inl e \<Rightarrow> (Inl e, sent')
              | Inr _ \<Rightarrow>
                  (let soup = html_parser env (content response) in
                   case soup_find None [(''id'', ''logList1'')] soup of
                     None \<Rightarrow> (Inl AttributeError, sent')
                   | Some workout \<Rightarrow>
                       (exercises_loop (int_max_str_digits env)
                          (soup_findAll (Some ''div'') [(''class'', ''exercise-block'')] workout) [],
                        sent'))))"

section \<open>Vocabulary of the properties\<close>

text \<open>A well-formed token \<^verbatim>\<open>Set <n> : <w>x<r>\<close>, for three non-empty strings of digits.\<close>

definition digits :: "string \<Rightarrow> bool" where
  "digits s = (s \<noteq> [] \<and> list_all is_digit s)"

definition render_token :: "string \<Rightarrow> string \<Rightarrow> string \<Rightarrow> string" where
  "render_token n w r = ''Set '' @ n @ '' : '' @ w @ ''x'' @ r"

definition contains_token :: "string \<Rightarrow> bool" where
  "contains_token s =
     (\<exists>pre n w r post. digits n \<and> digits w \<and> digits r \<and> s = pre @ render_token n w r @ post)"

text \<open>
  A text made of tokens, each followed by a separator: any text without the letter \<^verbatim>\<open>S\<close>
  that does not begin with a digit (a space, a newline, nothing at all).
\<close>

definition sep_ok :: "string \<Rightarrow> bool" where
  "sep_ok sep = (CHR ''S'' \<notin> set sep \<and> (sep = [] \<or> \<not> is_digit (hd sep)))"

fun log_text :: "((string \<times> string \<times> string) \<times> string) list \<Rightarrow> string" where
  "log_text [] = []"
| "log_text (((n, w, r), sep) # ts) = render_token n w r @ sep @ log_text ts"

text \<open>
  A string of digits that \<open>int_validator\<close> refuses: longer than pydantic's bound, or than the
  interpreter's.
\<close>

definition too_long :: "nat \<Rightarrow> string \<Rightarrow> bool" where
  "too_long maxd ds = (max_str_int < length ds \<or> exceeds_limit maxd ds)"

text \<open>A float that is zero, positive or plus infinity.\<close>

definition float_nonneg :: "pyfloat \<Rightarrow> bool" where
  "float_nonneg f = (case f of Finite v \<Rightarrow> 0 \<le> v | PosInf \<Rightarrow> True | NegInf \<Rightarrow> False | NaN \<Rightarrow> False)"

subsection \<open>The page of a call\<close>

text \<open>The request that \<open>get_workout_from_date\<close> sends.\<close>

definition logs_request :: "JEFITClient \<Rightarrow> string \<Rightarrow> string \<Rightarrow> request" where
  "logs_request self username date =
     \<lparr>url = logs_base_url (url_config self), params = [(''xid'', username), (''dd'', date)]\<rparr>"

text \<open>
  The call gets a response with a success status whose body the parser turns into \<open>soup\<close>.
\<close>

definition receives :: "environment \<Rightarrow> JEFITClient \<Rightarrow> string \<Rightarrow> string \<Rightarrow> node \<Rightarrow> bool" where
  "receives env self username date soup =
     (case send env (logs_request self username date) of
        Inl e \<Rightarrow> False
      | Inr response \<Rightarrow> is_success (status_code response) \<and> html_parser env (content response) = soup)"

text \<open>
  The expressions of lines 72, 73 and 76: the ``log list'' container of a page, the exercise
  blocks below it, and the ``log bar block'' elements that the code counts in an exercise
  block (none when the block has no ``fixed log bar'').
\<close>

definition log_list :: "node \<Rightarrow> node option" where
  "log_list soup = soup_find None [(''id'', ''logList1'')] soup"

definition exercise_nodes :: "node \<Rightarrow> node list" where
  "exercise_nodes workout = soup_findAll (Some ''div'') [(''class'', ''exercise-block'')] workout"

definition log_bar_blocks :: "node \<Rightarrow> node list option" where
  "log_bar_blocks exercise =
     (case soup_find (Some ''div'') [(''class'', ''fixedLogBar'')] exercise of
        None \<Rightarrow> None
      | Some bar \<Rightarrow> Some (soup_findAll (Some ''div'') [(''class'', ''fixedLogBarBlock align-top'')] bar))"

subsection \<open>Example pages\<close>

text \<open>
  Pages in the layout the function expects: a ``log list'' container that holds exercise
  blocks, each a ``fixed log bar'' of ``log bar block'' elements. \<open>bench_press\<close> is the
  exercise block of the fixture (picture, name, one-rep-max, logs text); \<open>three_blocks\<close>
  lacks the fourth sub-block, \<open>no_link\<close> has a name without a link, \<open>no_number\<close> a
  one-rep-max that is not a number, \<open>long_set\<close> a set number of 4301 digits;
  \<open>incline_press\<close> has two links in its name block, the first with whitespace around the
  name; its one-rep-max is written with an exponent, between spaces and across two elements
  after a comment; its sets are not in order.
\<close>

definition bar_block :: "node list \<Rightarrow> node" where
  "bar_block cs = Tag ''div'' [(''class'', AttrList [''fixedLogBarBlock'', ''align-top''])] cs"

definition exercise_div :: "node list \<Rightarrow> node" where
  "exercise_div blocks =
     Tag ''div'' [(''class'', AttrList [''exercise-block''])]
       [Tag ''div'' [(''class'', AttrList [''fixedLogBar''])] blocks]"

definition log_list_div :: "node list \<Rightarrow> node" where
  "log_list_div exercises = Tag ''div'' [(''id'', AttrStr ''logList1'')] exercises"

definition page :: "node list \<Rightarrow> node" where
  "page exercises = Tag ''[document]'' [] [Tag ''html'' [] [Tag ''body'' [] [log_list_div exercises]]]"

definition bench_press :: node where
  "bench_press = exercise_div
     [bar_block [Tag ''img'' [] []],
      bar_block [Tag ''a'' [] [NavigableString ''Bench Press'']],
      bar_block [NavigableString ''225''],
      bar_block [NavigableString ''Set 1 : 225x5 Set 2 : 225x5'']]"

definition three_blocks :: node where
  "three_blocks = exercise_div
     [bar_block [Tag ''img'' [] []],
      bar_block [Tag ''a'' [] [NavigableString ''Squat'']],
      bar_block [NavigableString ''315'']]"

definition no_link :: node where
  "no_link = exercise_div
     [bar_block [Tag ''img'' [] []],
      bar_block [NavigableString ''Deadlift''],
      bar_block [NavigableString ''405''],
      bar_block [NavigableString ''Set 1 : 405x3'']]"

definition long_set :: node where
  "long_set = exercise_div
     [bar_block [Tag ''img'' [] []],
      bar_block [Tag ''a'' [] [NavigableString ''Curl'']],
      bar_block [NavigableString ''80''],
      bar_block [NavigableString (''Set '' @ replicate 4301 CHR ''1'' @ '' : 1x1'')]]"

definition incline_link :: node where
  "incline_link = Tag ''a'' [] [NavigableString ''  Incline '', Tag ''b'' [] [NavigableString ''Press '']]"

definition incline_press :: node where
  "incline_press = exercise_div
     [bar_block [Tag ''img'' [] []],
      bar_block [NavigableString '' '', incline_link, Tag ''a'' [] [NavigableString ''history'']],
      bar_block [Comment ''1RM'', NavigableString '' 1.3'', Tag ''span'' [] [NavigableString ''5e2 '']],
      bar_block [NavigableString ''Set 2 : 95x8 Set 1 : 100x6'']]"

definition no_number :: node where
  "no_number = exercise_div
     [bar_block [Tag ''img'' [] []],
      bar_block [Tag ''a'' [] [NavigableString ''Plank'']],
      bar_block [NavigableString ''N/A''],
      bar_block [NavigableString ''Set 1 : 0x60'']]"

text \<open>
  A site that answers every request with the given status, and a parser that yields the
  given page; the client with the default configuration.
\<close>

definition site :: "nat \<Rightarrow> node \<Rightarrow> environment" where
  "site code soup =
     \<lparr>send = (\<lambda>req. Inr \<lparr>status_code = code, content = []\<rparr>),
      html_parser = (\<lambda>body. soup),
      int_max_str_digits = default_max_str_digits\<rparr>"

definition client :: JEFITClient where
  "client = \<lparr>url_config = DEFAULT_JEFIT_CONFIG\<rparr>"

section \<open>Matching the pattern\<close>

lemma drop_in_run:
  "i < length (takeWhile P s) \<Longrightarrow> \<exists>d r. drop i s = d # r \<and> P d"
proof -
  assume a: "i < length (takeWhile P s)"
  have l: "i < length s" using a length_takeWhile_le [of P s] by (rule less_le_trans)
  have "takeWhile P s ! i \<in> set (takeWhile P s)" using a by simp
  then have "P (takeWhile P s ! i)" by (rule set_takeWhileD [THEN conjunct2])
  then have "P (s ! i)" using a by (simp add: takeWhile_nth)
  moreover have "drop i s = s ! i # drop (Suc i) s" using l by (simp add: Cons_nth_drop_Suc)
  ultimately show ?thesis by blast
qed

lemma try_digits_short:
  "\<not> is_digit c \<Longrightarrow> k < length (takeWhile is_digit s) \<Longrightarrow> try_digits (Chr c # p) s k = None"
proof (induction k)
  case 0
  then show ?case by simp
next
  case (Suc k)
  from drop_in_run [OF Suc.prems(2)] obtain d r where "drop (Suc k) s = d # r" "is_digit d" by blast
  moreover have "try_digits (Chr c # p) s k = None" using Suc by simp
  ultimately have "match_items (Chr c # p) (drop (Suc k) s) = None"
    using Suc.prems(1) by (simp only: match_items.simps list.case) auto
  then show ?case using \<open>try_digits (Chr c # p) s k = None\<close>
    by (simp only: try_digits.simps option.case)
qed

lemma match_digits_chr:
  "\<not> is_digit c \<Longrightarrow> match_items (DigitsGroup # Chr c # p) s =
     (if takeWhile is_digit s = [] then None
      else (case match_items (Chr c # p) (dropWhile is_digit s) of
              Some (gs, rest) \<Rightarrow> Some (takeWhile is_digit s # gs, rest)
            | None \<Rightarrow> None))"
proof (cases "length (takeWhile is_digit s)")
  case 0
  then show ?thesis by simp
next
  case (Suc k)
  assume c: "\<not> is_digit c"
  have "try_digits (Chr c # p) s k = None" using c Suc by (simp add: try_digits_short)
  moreover have "drop (Suc k) s = dropWhile is_digit s" "take (Suc k) s = takeWhile is_digit s"
    using dropWhile_eq_drop [of is_digit s] takeWhile_eq_take [of is_digit s]
    unfolding Suc by simp_all
  moreover have "takeWhile is_digit s \<noteq> []" using Suc by auto
  ultimately show ?thesis
    by (simp only: match_items.simps(3) Suc try_digits.simps(2) if_False split: option.splits)
qed

lemma match_digits_last:
  "match_items [DigitsGroup] s =
     (if takeWhile is_digit s = [] then None
      else Some ([takeWhile is_digit s], dropWhile is_digit s))"
proof (cases "length (takeWhile is_digit s)")
  case 0
  then show ?thesis by simp
next
  case (Suc k)
  have "drop (Suc k) s = dropWhile is_digit s" "take (Suc k) s = takeWhile is_digit s"
    using dropWhile_eq_drop [of is_digit s] takeWhile_eq_take [of is_digit s]
    unfolding Suc by simp_all
  moreover have "takeWhile is_digit s \<noteq> []" using Suc by auto
  ultimately show ?thesis
    by (simp only: match_items.simps(3) Suc try_digits.simps(2) match_items.simps(1) if_False option.case prod.case)
qed

lemma not_digit_chars [simp]: "\<not> is_digit CHR '' ''" "\<not> is_digit CHR ''x''" "\<not> is_digit CHR ''S''"
  by (simp_all add: is_digit_def)

lemma run_then_other:
  "list_all is_digit n \<Longrightarrow> \<not> is_digit c \<Longrightarrow>
   takeWhile is_digit (n @ c # r) = n \<and> dropWhile is_digit (n @ c # r) = c # r"
  by (induction n) auto

lemma run_then_rest:
  "list_all is_digit n \<Longrightarrow> rest = [] \<or> \<not> is_digit (hd rest) \<Longrightarrow>
   takeWhile is_digit (n @ rest) = n \<and> dropWhile is_digit (n @ rest) = rest"
  by (cases rest) (auto simp: run_then_other list_all_iff)

lemma match_token:
  assumes "digits n" "digits w" "digits r" "rest = [] \<or> \<not> is_digit (hd rest)"
  shows "match_items pattern (render_token n w r @ rest) = Some ([n, w, r], rest)"
  using assms run_then_rest [of r rest]
  by (simp add: pattern_def render_token_def digits_def match_digits_chr match_digits_last
      run_then_other del: match_items.simps(3))

lemma match_token_any:
  assumes "digits n" "digits w" "digits r"
  shows "match_items pattern (render_token n w r @ rest) \<noteq> None"
proof -
  have "render_token n w r @ rest = render_token n w (r @ takeWhile is_digit rest) @ dropWhile is_digit rest"
    by (simp add: render_token_def)
  moreover have "digits (r @ takeWhile is_digit rest)"
    using assms(3) by (auto simp: digits_def list_all_iff dest: set_takeWhileD)
  moreover have "dropWhile is_digit rest = [] \<or> \<not> is_digit (hd (dropWhile is_digit rest))"
    using hd_dropWhile [of is_digit rest] by blast
  ultimately show ?thesis using match_token [OF assms(1,2)] by simp
qed

lemma match_sound:
  assumes "match_items pattern s = Some (gs, rest)"
  shows "\<exists>n w r. gs = [n, w, r] \<and> digits n \<and> digits w \<and> digits r \<and> s = render_token n w r @ rest"
proof -
  from assms obtain r1 where s: "s = ''Set '' @ r1"
    and m1: "match_items (drop 4 pattern) r1 = Some (gs, rest)"
    by (auto simp: pattern_def simp del: match_items.simps(3) split: list.splits if_splits)
  define n where "n = takeWhile is_digit r1"
  from m1 obtain r2 g2 where n: "n \<noteq> []" and r1: "dropWhile is_digit r1 = '' : '' @ r2"
    and m2: "match_items (drop 8 pattern) r2 = Some (g2, rest)" and gs: "gs = n # g2"
    by (auto simp: pattern_def match_digits_chr n_def simp del: match_items.simps(3)
        split: list.splits if_splits option.splits)
  define w where "w = takeWhile is_digit r2"
  from m2 obtain r3 g3 where w: "w \<noteq> []" and r2: "dropWhile is_digit r2 = ''x'' @ r3"
    and m3: "match_items [DigitsGroup] r3 = Some (g3, rest)" and g2: "g2 = w # g3"
    by (auto simp: pattern_def match_digits_chr w_def simp del: match_items.simps(3)
        split: list.splits if_splits option.splits)
  define r where "r = takeWhile is_digit r3"
  from m3 have r: "r \<noteq> []" and r3: "dropWhile is_digit r3 = rest" and g3: "g3 = [r]"
    by (auto simp: match_digits_last r_def simp del: match_items.simps(3) split: if_splits)
  have "r1 = n @ '' : '' @ r2" "r2 = w @ ''x'' @ r3" "r3 = r @ rest"
    using takeWhile_dropWhile_id [of is_digit r1] takeWhile_dropWhile_id [of is_digit r2]
      takeWhile_dropWhile_id [of is_digit r3] r1 r2 r3
    unfolding n_def w_def r_def by simp_all
  moreover have "list_all is_digit n" "list_all is_digit w" "list_all is_digit r"
    unfolding n_def w_def r_def by (auto simp: list_all_iff dest: set_takeWhileD)
  ultimately show ?thesis using s n w r gs g2 g3
    by (auto simp: render_token_def digits_def)
qed

lemma match_other: "c \<noteq> CHR ''S'' \<Longrightarrow> match_items pattern (c # s) = None"
  by (simp add: pattern_def)

lemma match_empty: "match_items pattern [] = None"
  by (simp add: pattern_def)

lemma digit_not_space: "is_digit c \<Longrightarrow> \<not> is_space c"
  by (auto simp: is_digit_def is_space_def)

lemma digit_not_sign: "is_digit c \<Longrightarrow> c \<noteq> CHR ''-'' \<and> c \<noteq> CHR ''+'' \<and> c \<noteq> CHR ''.''"
  by (auto simp: is_digit_def)

lemma dropWhile_head: "xs \<noteq> [] \<Longrightarrow> \<not> P (hd xs) \<Longrightarrow> dropWhile P xs = xs"
  by (cases xs) auto

lemma digit_ascii: "is_digit c \<Longrightarrow> (of_char c :: nat) < 128 \<and> \<not> is_c_space c"
  by (auto simp: is_digit_def is_c_space_def)

lemma strip_digits: "digits s \<Longrightarrow> num_strip s = s"
proof -
  assume d: "digits s"
  then have ne: "s \<noteq> []" and "is_digit (hd s)" "is_digit (last s)"
    by (auto simp: digits_def list_all_iff)
  then have "\<not> is_c_space (hd s)" "\<not> is_c_space (hd (rev s))"
    by (simp_all add: digit_ascii hd_rev)
  then have "dropWhile is_c_space s = s" "dropWhile is_c_space (rev s) = rev s"
    using ne by (simp_all add: dropWhile_head)
  moreover have "to_ascii s = s"
    using d by (auto simp: to_ascii_def digits_def list_all_iff digit_ascii)
  ultimately show ?thesis by (simp add: num_strip_def)
qed

lemma digitpart_rest_digits: "list_all is_digit s \<Longrightarrow> digitpart_rest s = (s, [])"
  by (induction s rule: digitpart_rest.induct) auto

lemma digitpart_digits: "digits s \<Longrightarrow> digitpart s = Some (s, [])"
  by (cases s) (auto simp: digits_def digitpart_def digitpart_rest_digits)

lemma split_sign_digits: "digits s \<Longrightarrow> split_sign s = (False, s)"
  by (cases s) (auto simp: digits_def split_sign_def digit_not_sign)

lemma py_int_digits:
  "digits s \<Longrightarrow> py_int maxd s = (if exceeds_limit maxd s then Inl ValueError else Inr (int (decimal s)))"
  by (simp add: py_int_def strip_digits split_sign_digits digitpart_digits)

lemma lower_digits: "digits s \<Longrightarrow> lower s \<noteq> ''inf'' \<and> lower s \<noteq> ''infinity'' \<and> lower s \<noteq> ''nan''"
  by (cases s) (auto simp: digits_def lower_def is_digit_def)

lemma py_float_digits: "digits s \<Longrightarrow> py_float s = Inr (round64 (of_int (int (decimal s))))"
  by (simp add: py_float_def strip_digits split_sign_digits digitpart_digits lower_digits
      parse_number_def parse_exponent_def)

lemma pow2_pos: "0 < pow2 k"
  by (simp add: pow2_def)

lemma pow2_nonpos: "k \<le> 0 \<Longrightarrow> pow2 k = 1 / 2 ^ nat (- k)"
  by (cases "k = 0") (simp_all add: pow2_def)

lemma round_half_even_int: "round_half_even (of_int m) = m"
  by (simp add: round_half_even_def)

lemma round_half_even_nonneg: "0 \<le> x \<Longrightarrow> 0 \<le> round_half_even x"
  by (auto simp: round_half_even_def Let_def)

lemma round64_nonneg: "0 \<le> q \<Longrightarrow> float_nonneg (round64 q)"
proof -
  assume q: "0 \<le> q"
  have "0 \<le> of_int (round_half_even (q / pow2 k)) * pow2 k" for k
    using q pow2_pos [of k] round_half_even_nonneg [of "q / pow2 k"] by simp
  then show ?thesis by (simp add: round64_def float_nonneg_def Let_def)
qed

lemma ilog2_nat_le:
  assumes "0 < n" "n < 2 ^ 53"
  shows "ilog2 (of_int (int n)) \<le> 52"
proof -
  have "bitlen (int n) \<le> 53" using assms(2) bitlen_le_iff_power [of "int n" 53] by simp
  moreover have "bitlen 1 = 1" by (simp add: bitlen_alt_def)
  ultimately show ?thesis by (simp add: ilog2_def Let_def)
qed

lemma round64_exact:
  assumes "n < 2 ^ 53"
  shows "round64 (of_int (int n)) = Finite (of_int (int n))"
proof (cases "n = 0")
  case True
  then show ?thesis by (simp add: round64_def)
next
  case False
  define q :: rat where "q = of_int (int n)"
  define e where "e = max (ilog2 q) (- 1022)"
  define j where "j = nat (52 - e)"
  have e: "e - 52 \<le> 0" using ilog2_nat_le [of n] assms False by (simp add: e_def q_def)
  then have quantum: "pow2 (e - 52) = 1 / 2 ^ j" by (simp add: pow2_nonpos j_def)
  have "q / pow2 (e - 52) = of_int (int n * 2 ^ j)" by (simp add: quantum q_def)
  then have m: "round_half_even (q / pow2 (e - 52)) = int n * 2 ^ j"
    by (simp only: round_half_even_int)
  have v: "of_int (round_half_even (q / pow2 (e - 52))) * pow2 (e - 52) = q"
    by (subst m, subst quantum, simp add: q_def)
  have "q < 2 ^ 53" using assms unfolding q_def
    by (metis of_int_of_nat_eq of_nat_less_numeral_power_cancel_iff)
  moreover have "(2::rat) ^ 53 \<le> 2 ^ 1024" by (rule power_increasing) simp_all
  ultimately have "\<not> pow2 1024 \<le> q" by (simp add: pow2_def)
  moreover have "q \<noteq> 0" using False by (simp add: q_def)
  ultimately show ?thesis
    unfolding round64_def Let_def e_def [symmetric] q_def [symmetric] by (simp add: v)
qed

lemma findall_Some:
  "match_items p s = Some (gs, rest) \<Longrightarrow> length rest < length s \<Longrightarrow>
   findall p s = gs # findall p rest"
  by (subst findall.simps) simp

lemma findall_None_Cons: "match_items p (c # cs) = None \<Longrightarrow> findall p (c # cs) = findall p cs"
  by (subst findall.simps) simp

lemma findall_None_Nil: "match_items p [] = None \<Longrightarrow> findall p [] = []"
  by (subst findall.simps) simp

lemma findall_token:
  assumes "digits n" "digits w" "digits r" "rest = [] \<or> \<not> is_digit (hd rest)"
  shows "findall pattern (render_token n w r @ rest) = [n, w, r] # findall pattern rest"
  by (rule findall_Some [OF match_token [OF assms]]) (simp add: render_token_def)

lemma findall_skip: "c \<noteq> CHR ''S'' \<Longrightarrow> findall pattern (c # s) = findall pattern s"
  by (rule findall_None_Cons) (rule match_other)

lemma findall_empty: "findall pattern [] = []"
  by (rule findall_None_Nil) (rule match_empty)

lemma findall_junk: "CHR ''S'' \<notin> set j \<Longrightarrow> findall pattern (j @ s) = findall pattern s"
  by (induction j) (auto simp: findall_skip)

lemma log_text_head: "log_text ts = [] \<or> \<not> is_digit (hd (log_text ts))"
  by (cases ts) (auto simp: render_token_def)

lemma findall_log_text:
  "list_all (\<lambda>((n, w, r), sep). digits n \<and> digits w \<and> digits r \<and> sep_ok sep) ts \<Longrightarrow>
   findall pattern (log_text ts) = map (\<lambda>((n, w, r), sep). [n, w, r]) ts"
proof (induction ts)
  case Nil
  then show ?case by (simp add: findall_empty)
next
  case (Cons t ts)
  obtain n w r sep where t: "t = ((n, w, r), sep)" by (cases t) auto
  have d: "digits n" "digits w" "digits r" and sep: "sep_ok sep" using Cons.prems t by simp_all
  have "sep @ log_text ts = [] \<or> \<not> is_digit (hd (sep @ log_text ts))"
    using sep log_text_head [of ts] by (cases sep) (auto simp: sep_ok_def)
  then have "findall pattern (log_text (t # ts)) = [n, w, r] # findall pattern (sep @ log_text ts)"
    using findall_token [OF d] by (simp add: t)
  also have "findall pattern (sep @ log_text ts) = findall pattern (log_text ts)"
    using sep by (simp add: findall_junk sep_ok_def)
  finally show ?case using Cons by (simp add: t)
qed

lemma findall_sound:
  "g \<in> set (findall pattern s) \<Longrightarrow> \<exists>n w r. g = [n, w, r] \<and> digits n \<and> digits w \<and> digits r"
proof (induction s rule: length_induct)
  case (1 s)
  show ?case
  proof (cases "match_items pattern s")
    case None
    show ?thesis
    proof (cases s)
      case Nil
      then show ?thesis using 1(2) by (simp add: findall_empty)
    next
      case (Cons c cs)
      then have "g \<in> set (findall pattern cs)" using 1(2) None by (simp add: findall_None_Cons)
      moreover have "length cs < length s" using Cons by simp
      ultimately show ?thesis using 1(1) by blast
    qed
  next
    case (Some m)
    obtain gs rest where m: "m = (gs, rest)" by (cases m)
    from match_sound [OF Some [unfolded m]] obtain n w r where
      gs: "gs = [n, w, r]" "digits n" "digits w" "digits r" and s: "s = render_token n w r @ rest"
      by blast
    have l: "length rest < length s" using s by (simp add: render_token_def)
    have "findall pattern s = gs # findall pattern rest"
      using Some m l by (simp add: findall_Some)
    then have "g = gs \<or> g \<in> set (findall pattern rest)" using 1(2) by simp
    then show ?thesis using gs 1(1) l by blast
  qed
qed

lemma findall_contains:
  "findall pattern s \<noteq> [] \<Longrightarrow> contains_token s"
proof (induction s)
  case Nil
  then show ?case by (simp add: findall_empty)
next
  case (Cons c cs)
  show ?case
  proof (cases "match_items pattern (c # cs)")
    case None
    then have "contains_token cs" using Cons by (simp add: findall_None_Cons)
    then show ?thesis unfolding contains_token_def by (metis append_Cons)
  next
    case (Some m)
    obtain gs rest where m: "m = (gs, rest)" by (cases m)
    from match_sound [OF Some [unfolded m]] show ?thesis
      unfolding contains_token_def by (metis append_Nil)
  qed
qed

lemma findall_hit: "match_items p s \<noteq> None \<Longrightarrow> findall p s \<noteq> []"
  by (subst findall.simps) (auto split: option.splits)

lemma contains_findall:
  "contains_token s \<Longrightarrow> findall pattern s \<noteq> []"
proof -
  assume "contains_token s"
  then obtain pre n w r post where d: "digits n" "digits w" "digits r"
    and s: "s = pre @ render_token n w r @ post" unfolding contains_token_def by blast
  show ?thesis unfolding s
  proof (induction pre)
    case Nil
    from match_token_any [OF d, of post] show ?case by (simp add: findall_hit)
  next
    case (Cons c pre)
    show ?case
    proof (cases "match_items pattern ((c # pre) @ render_token n w r @ post)")
      case None
      then show ?thesis using Cons by (simp add: findall_None_Cons)
    next
      case (Some m)
      then show ?thesis by (simp add: findall_hit)
    qed
  qed
qed

lemma findall_Cons:
  "findall p (c # cs) =
     (case match_items p (c # cs) of
        None \<Rightarrow> findall p cs
      | Some (gs, rest) \<Rightarrow>
          gs # (if length rest < Suc (length cs) then findall p rest else findall p cs))"
  by (subst findall.simps) (simp split: option.splits)

lemma findall_Nil:
  "findall p [] = (case match_items p [] of None \<Rightarrow> [] | Some (gs, rest) \<Rightarrow> [gs])"
  by (subst findall.simps) (simp split: option.splits)

section \<open>Building the records\<close>

lemma int_validator_digits:
  "digits s \<Longrightarrow>
   int_validator maxd s = (if too_long maxd s then Inl ValidationError else Inr (int (decimal s)))"
  by (simp add: int_validator_def too_long_def py_int_digits)

lemma new_LiftingLog_digits:
  "digits n \<Longrightarrow> digits w \<Longrightarrow> digits r \<Longrightarrow>
   new_LiftingLog maxd n w r =
     (if too_long maxd n \<or> too_long maxd r then Inl ValidationError
      else Inr \<lparr>set_number = int (decimal n), weight = round64 (of_nat (decimal w)),
                reps = int (decimal r)\<rparr>)"
  by (simp add: new_LiftingLog_def int_validator_digits float_validator_def py_float_digits)

lemma build_logs_tokens:
  "list_all (\<lambda>(n, w, r). digits n \<and> digits w \<and> digits r \<and>
                \<not> too_long maxd n \<and> \<not> too_long maxd r) ts \<Longrightarrow>
   build_logs maxd (map (\<lambda>(n, w, r). [n, w, r]) ts) =
     Inr (map (\<lambda>(n, w, r). \<lparr>set_number = int (decimal n),
                 weight = round64 (of_nat (decimal w)), reps = int (decimal r)\<rparr>) ts)"
  by (induction ts) (auto simp: new_LiftingLog_digits)

lemma build_logs_member:
  "build_logs maxd gs = Inr ls \<Longrightarrow> l \<in> set ls \<Longrightarrow>
   \<forall>g \<in> set gs. \<exists>n w r. g = [n, w, r] \<and> digits n \<and> digits w \<and> digits r \<Longrightarrow>
   \<exists>n w r. [n, w, r] \<in> set gs \<and> digits n \<and> digits w \<and> digits r \<and>
     l = \<lparr>set_number = int (decimal n), weight = round64 (of_nat (decimal w)),
          reps = int (decimal r)\<rparr>"
proof (induction gs arbitrary: ls)
  case Nil
  then show ?case by simp
next
  case (Cons g gs)
  from Cons.prems(3) obtain n w r where g: "g = [n, w, r]" and d: "digits n" "digits w" "digits r"
    by auto
  from Cons.prems(1) obtain l0 ls0 where l0: "new_LiftingLog maxd n w r = Inr l0"
    and ls0: "build_logs maxd gs = Inr ls0" and ls: "ls = l0 # ls0"
    by (auto simp: g split: sum.splits)
  show ?case
  proof (cases "l = l0")
    case True
    then show ?thesis using l0 d g by (auto simp: new_LiftingLog_digits split: if_splits)
  next
    case False
    then have "l \<in> set ls0" using Cons.prems(2) ls by simp
    from Cons.IH [OF ls0 this] Cons.prems(3) show ?thesis by auto
  qed
qed

lemma build_logs_total:
  "\<forall>g \<in> set gs. \<exists>n w r. g = [n, w, r] \<and> digits n \<and> digits w \<and> digits r \<and>
      \<not> too_long maxd n \<and> \<not> too_long maxd r \<Longrightarrow>
   \<exists>ls. build_logs maxd gs = Inr ls"
  by (induction gs) (auto simp: new_LiftingLog_digits)

lemma findall_occurs:
  "g \<in> set (findall pattern s) \<Longrightarrow>
   \<exists>n w r pre post. g = [n, w, r] \<and> digits n \<and> digits w \<and> digits r \<and>
      s = pre @ render_token n w r @ post"
proof (induction s rule: length_induct)
  case (1 s)
  show ?case
  proof (cases "match_items pattern s")
    case None
    show ?thesis
    proof (cases s)
      case Nil
      then show ?thesis using 1(2) by (simp add: findall_empty)
    next
      case (Cons c cs)
      then have "g \<in> set (findall pattern cs)" using 1(2) None by (simp add: findall_None_Cons)
      moreover have "length cs < length s" using Cons by simp
      ultimately obtain n w r pre post where "g = [n, w, r]" "digits n" "digits w" "digits r"
        "cs = pre @ render_token n w r @ post" using 1(1) by blast
      then have "g = [n, w, r] \<and> digits n \<and> digits w \<and> digits r \<and>
        s = (c # pre) @ render_token n w r @ post" using Cons by simp
      then show ?thesis by blast
    qed
  next
    case (Some m)
    obtain gs rest where m: "m = (gs, rest)" by (cases m)
    from match_sound [OF Some [unfolded m]] obtain n w r where
      gs: "gs = [n, w, r]" "digits n" "digits w" "digits r" and s: "s = render_token n w r @ rest"
      by blast
    have l: "length rest < length s" using s by (simp add: render_token_def)
    have "findall pattern s = gs # findall pattern rest"
      using Some m l by (simp add: findall_Some)
    then consider "g = gs" | "g \<in> set (findall pattern rest)" using 1(2) by auto
    then show ?thesis
    proof cases
      case 1
      then have "g = [n, w, r] \<and> digits n \<and> digits w \<and> digits r \<and>
        s = [] @ render_token n w r @ rest" using gs s by simp
      then show ?thesis by blast
    next
      case 2
      then obtain n' w' r' pre post where "g = [n', w', r']" "digits n'" "digits w'" "digits r'"
        "rest = pre @ render_token n' w' r' @ post" using "1.IH" l by blast
      then have "g = [n', w', r'] \<and> digits n' \<and> digits w' \<and> digits r' \<and>
        s = (render_token n w r @ pre) @ render_token n' w' r' @ post" using s by simp
      then show ?thesis by blast
    qed
  qed
qed

lemma parse_log_text:
  assumes "list_all (\<lambda>((n, w, r), sep). digits n \<and> digits w \<and> digits r \<and> sep_ok sep \<and>
             \<not> too_long maxd n \<and> \<not> too_long maxd r) ts"
  shows "parse_to_lifting_log maxd (log_text ts) =
     Inr (map (\<lambda>((n, w, r), sep). \<lparr>set_number = int (decimal n),
                 weight = round64 (of_nat (decimal w)), reps = int (decimal r)\<rparr>) ts)"
proof -
  have a: "list_all (\<lambda>((n, w, r), sep). digits n \<and> digits w \<and> digits r \<and> sep_ok sep) ts"
    using assms by (auto simp: list_all_iff)
  have b: "list_all (\<lambda>(n, w, r). digits n \<and> digits w \<and> digits r \<and>
                \<not> too_long maxd n \<and> \<not> too_long maxd r) (map fst ts)"
    using assms by (auto simp: list_all_iff)
  have "findall pattern (log_text ts) = map (\<lambda>(n, w, r). [n, w, r]) (map fst ts)"
    using findall_log_text [OF a] by (simp add: case_prod_unfold)
  then show ?thesis
    using build_logs_tokens [OF b] by (simp add: parse_to_lifting_log_def case_prod_unfold)
qed

lemma round64_exact_nat: "n < 2 ^ 53 \<Longrightarrow> round64 (of_nat n) = Finite (of_nat n)"
  using round64_exact [of n] by simp

lemma round64_above_2p53: "round64 9007199254740993 = Finite 9007199254740992"
  by code_simp

lemma decimal_eval:
  "decimal [] = 0" "decimal (ds @ [c]) = 10 * decimal ds + digit_value c"
  by (simp_all add: decimal_def)

section \<open>What the parser returns\<close>

lemma parse_records_from_tokens:
  assumes "parse_to_lifting_log maxd s = Inr ls" "l \<in> set ls"
  shows "\<exists>n w r pre post. digits n \<and> digits w \<and> digits r \<and>
           s = pre @ render_token n w r @ post \<and>
           l = \<lparr>set_number = int (decimal n), weight = round64 (of_nat (decimal w)),
                reps = int (decimal r)\<rparr>"
proof -
  have "\<forall>g \<in> set (findall pattern s). \<exists>n w r. g = [n, w, r] \<and> digits n \<and> digits w \<and> digits r"
    using findall_sound by blast
  from build_logs_member [OF assms(1) [unfolded parse_to_lifting_log_def] assms(2) this]
  obtain n w r where g: "[n, w, r] \<in> set (findall pattern s)"
    and l: "l = \<lparr>set_number = int (decimal n), weight = round64 (of_nat (decimal w)),
                reps = int (decimal r)\<rparr>" by blast
  from findall_occurs [OF g] l show ?thesis by blast
qed

lemma parse_no_match: "findall pattern s = [] \<Longrightarrow> parse_to_lifting_log maxd s = Inr []"
  by (simp add: parse_to_lifting_log_def)

lemma no_token_eval: "findall pattern s = [] \<Longrightarrow> \<not> contains_token s"
  using contains_findall by blast

lemma round64_numeral:
  "(numeral k :: nat) < 2 ^ 53 \<Longrightarrow> round64 (numeral k) = Finite (numeral k)"
  using round64_exact_nat [of "numeral k"] by simp

lemmas token_eval = digits_def sep_ok_def too_long_def max_str_int_def exceeds_limit_def
  is_digit_def render_token_def decimal_def digit_value_def

lemma parse_set_zero:
  "parse_to_lifting_log default_max_str_digits ''Set 0 : 70x5''
     = Inr [\<lparr>set_number = 0, weight = Finite 70, reps = 5\<rparr>]"
  using parse_log_text [of default_max_str_digits "[((''0'', ''70'', ''5''), [])]"]
  by (simp add: token_eval round64_numeral)

lemma parse_returns:
  assumes "\<forall>n w r pre post. digits n \<and> digits w \<and> digits r \<and>
             s = pre @ render_token n w r @ post \<longrightarrow>
             \<not> too_long maxd n \<and> \<not> too_long maxd r"
  shows "\<exists>ls. parse_to_lifting_log maxd s = Inr ls"
proof -
  have "\<exists>n w r. g = [n, w, r] \<and> digits n \<and> digits w \<and> digits r \<and>
      \<not> too_long maxd n \<and> \<not> too_long maxd r" if "g \<in> set (findall pattern s)" for g
  proof -
    from findall_occurs [OF that] obtain n w r pre post where
      g: "g = [n, w, r]" "digits n" "digits w" "digits r" "s = pre @ render_token n w r @ post"
      by blast
    then have "\<not> too_long maxd n \<and> \<not> too_long maxd r" using assms by blast
    then show ?thesis using g by blast
  qed
  then show ?thesis unfolding parse_to_lifting_log_def by (intro build_logs_total) blast
qed

lemma build_logs_error:
  "\<forall>g \<in> set gs. \<exists>n w r. g = [n, w, r] \<and> digits n \<and> digits w \<and> digits r \<Longrightarrow>
   build_logs maxd gs = Inl e \<Longrightarrow> e = ValidationError"
proof (induction gs)
  case Nil
  then show ?case by simp
next
  case (Cons g gs)
  from Cons.prems(1) obtain n w r where g: "g = [n, w, r]" "digits n" "digits w" "digits r"
    by auto
  show ?case
  proof (cases "too_long maxd n \<or> too_long maxd r")
    case True
    then show ?thesis using Cons.prems(2) g by (simp add: new_LiftingLog_digits)
  next
    case False
    then have "build_logs maxd gs = Inl e"
      using Cons.prems(2) g by (simp add: new_LiftingLog_digits split: sum.splits)
    then show ?thesis using Cons by simp
  qed
qed

lemma parse_error_kind: "parse_to_lifting_log maxd s = Inl e \<Longrightarrow> e = ValidationError"
proof -
  assume a: "parse_to_lifting_log maxd s = Inl e"
  have "\<forall>g \<in> set (findall pattern s). \<exists>n w r. g = [n, w, r] \<and> digits n \<and> digits w \<and> digits r"
    using findall_sound by blast
  from build_logs_error [OF this a [unfolded parse_to_lifting_log_def]] show ?thesis .
qed

lemma token_shorter:
  "s = pre @ render_token n w r @ post \<Longrightarrow> length n \<le> length s \<and> length r \<le> length s"
  by (simp add: render_token_def)

lemma parse_long_set_number:
  "parse_to_lifting_log maxd (''Set '' @ replicate 4301 CHR ''1'' @ '' : 1x1'')
     = Inl ValidationError"
proof -
  have d: "digits (replicate 4301 CHR ''1'')" "digits ''1''"
    by (simp_all add: digits_def list_all_iff is_digit_def)
  have "findall pattern (render_token (replicate 4301 CHR ''1'') ''1'' ''1'' @ [])
      = [[replicate 4301 CHR ''1'', ''1'', ''1'']]"
    using findall_token [OF d(1) d(2) d(2), of "[]"] by (simp add: findall_empty)
  moreover have "too_long maxd (replicate 4301 CHR ''1'')"
    by (simp add: too_long_def max_str_int_def)
  ultimately show ?thesis
    using d by (simp add: parse_to_lifting_log_def render_token_def new_LiftingLog_digits)
qed

section \<open>Claims about the log-line parser\<close>

text \<open>
  C1 (amended). For every text made of \<open>k\<close> well-formed tokens \<^verbatim>\<open>Set <n> : <w>x<r>\<close>, each
  followed by a separator, whose set numbers and reps are not longer than the validator of
  integers accepts (4300 characters, and the interpreter's bound on digits),
  \<open>parse_to_lifting_log\<close> returns exactly \<open>k\<close> records, in the order of the tokens;
  \<open>set_number\<close> and \<open>reps\<close> are the captured integers and \<open>weight\<close> is the float nearest to the
  captured integer, which is that integer itself whenever it is below \<open>2\<^sup>5\<^sup>3\<close>.
\<close>

theorem parse_tokens_in_order:
  assumes "list_all (\<lambda>((n, w, r), sep). digits n \<and> digits w \<and> digits r \<and> sep_ok sep \<and>
             \<not> too_long maxd n \<and> \<not> too_long maxd r) ts"
  shows "parse_to_lifting_log maxd (log_text ts) =
     Inr (map (\<lambda>((n, w, r), sep). \<lparr>set_number = int (decimal n),
                 weight = round64 (of_nat (decimal w)), reps = int (decimal r)\<rparr>) ts) \<and>
     list_all (\<lambda>((n, w, r), sep). decimal w < 2 ^ 53 \<longrightarrow>
                 round64 (of_nat (decimal w)) = Finite (of_nat (decimal w))) ts"
  using parse_log_text [OF assms] by (auto simp: list_all_iff round64_exact_nat)

text \<open>Three tokens whose set numbers are not in order, the last two not separated.\<close>

theorem parse_tokens_in_order_witness:
  "parse_to_lifting_log default_max_str_digits ''Set 3 : 70x5 Set 1 : 80x6Set 2 : 90x7''
     = Inr [\<lparr>set_number = 3, weight = Finite 70, reps = 5\<rparr>,
            \<lparr>set_number = 1, weight = Finite 80, reps = 6\<rparr>,
            \<lparr>set_number = 2, weight = Finite 90, reps = 7\<rparr>]"
  using parse_tokens_in_order [of default_max_str_digits
      "[((''3'', ''70'', ''5''), '' ''), ((''1'', ''80'', ''6''), []), ((''2'', ''90'', ''7''), [])]"]
  by (simp add: token_eval)

text \<open>
  The claim as stated fails in two ways. Where the weight is not a binary64 value it is
  rounded: the token \<^verbatim>\<open>Set 1 : 9007199254740993x5\<close> captures \<open>2\<^sup>5\<^sup>3 + 1\<close> and the record
  holds \<open>2\<^sup>5\<^sup>3\<close>. And a well-formed token with a set number of 4301 digits gives no record:
  the constructor raises.
\<close>

theorem parse_weight_counterexample:
  "parse_to_lifting_log default_max_str_digits ''Set 1 : 9007199254740993x5''
     = Inr [\<lparr>set_number = 1, weight = Finite 9007199254740992, reps = 5\<rparr>] \<and>
   decimal ''9007199254740993'' = 9007199254740993 \<and>
   parse_to_lifting_log default_max_str_digits (''Set '' @ replicate 4301 CHR ''1'' @ '' : 1x1'')
     = Inl ValidationError"
  using parse_log_text [of default_max_str_digits "[((''1'', ''9007199254740993'', ''5''), [])]"]
    parse_long_set_number [of default_max_str_digits]
  by (simp add: token_eval round64_above_2p53)

text \<open>
  C5. A text that contains no substring of the shape \<^verbatim>\<open>Set <int> : <int>x<int>\<close> gives the
  empty list, not an error; and in general only well-formed tokens contribute: every record
  returned comes from such a token occurring in the text.
\<close>

theorem parse_ignores_malformed:
  "(\<not> contains_token s \<longrightarrow> parse_to_lifting_log maxd s = Inr []) \<and>
   (\<forall>ls l. parse_to_lifting_log maxd s = Inr ls \<and> l \<in> set ls \<longrightarrow>
      (\<exists>n w r pre post. digits n \<and> digits w \<and> digits r \<and>
         s = pre @ render_token n w r @ post \<and>
         l = \<lparr>set_number = int (decimal n), weight = round64 (of_nat (decimal w)),
              reps = int (decimal r)\<rparr>))"
  using findall_contains [of s] parse_no_match [of s maxd] parse_records_from_tokens [of maxd s]
  by blast

text \<open>
  The empty text, a text without tokens, a wrong separator, extra whitespace, a missing colon
  and a decimal weight.
\<close>

theorem parse_ignores_malformed_witness:
  "(\<not> contains_token [] \<and> parse_to_lifting_log default_max_str_digits [] = Inr []) \<and>
   (\<not> contains_token ''no matches here'' \<and>
      parse_to_lifting_log default_max_str_digits ''no matches here'' = Inr []) \<and>
   (\<not> contains_token ''Set 1 - 70x5'' \<and>
      parse_to_lifting_log default_max_str_digits ''Set 1 - 70x5'' = Inr []) \<and>
   (\<not> contains_token ''Set 1  :  70x5'' \<and>
      parse_to_lifting_log default_max_str_digits ''Set 1  :  70x5'' = Inr []) \<and>
   (\<not> contains_token ''Set 1 70x5'' \<and>
      parse_to_lifting_log default_max_str_digits ''Set 1 70x5'' = Inr []) \<and>
   (\<not> contains_token ''Set 1 : 70.5x5'' \<and>
      parse_to_lifting_log default_max_str_digits ''Set 1 : 70.5x5'' = Inr [])"
proof -
  have e: "\<not> contains_token []" "\<not> contains_token ''no matches here''"
    "\<not> contains_token ''Set 1 - 70x5''" "\<not> contains_token ''Set 1  :  70x5''"
    "\<not> contains_token ''Set 1 70x5''" "\<not> contains_token ''Set 1 : 70.5x5''"
    by (rule no_token_eval, simp add: findall_Cons findall_Nil pattern_def is_digit_def)+
  show ?thesis
    using e parse_ignores_malformed [of "[]" default_max_str_digits]
      parse_ignores_malformed [of "''no matches here''" default_max_str_digits]
      parse_ignores_malformed [of "''Set 1 - 70x5''" default_max_str_digits]
      parse_ignores_malformed [of "''Set 1  :  70x5''" default_max_str_digits]
      parse_ignores_malformed [of "''Set 1 70x5''" default_max_str_digits]
      parse_ignores_malformed [of "''Set 1 : 70.5x5''" default_max_str_digits]
    by blast
qed

text \<open>
  C6 (amended). In every record returned by \<open>parse_to_lifting_log\<close>, \<open>set_number\<close> is an
  integer \<open>\<ge> 0\<close>, \<open>weight\<close> is a float \<open>\<ge> 0\<close> (plus infinity when the captured integer is
  beyond the range of a float) and \<open>reps\<close> is an integer \<open>\<ge> 0\<close>.
\<close>

theorem parse_records_nonneg:
  assumes "parse_to_lifting_log maxd s = Inr ls" "l \<in> set ls"
  shows "0 \<le> set_number l \<and> float_nonneg (weight l) \<and> 0 \<le> reps l"
proof -
  from parse_records_from_tokens [OF assms] obtain n w r where
    "l = \<lparr>set_number = int (decimal n), weight = round64 (of_nat (decimal w)),
          reps = int (decimal r)\<rparr>" by blast
  then show ?thesis by (simp add: round64_nonneg)
qed

text \<open>The record for \<^verbatim>\<open>Set 0 : 70x5\<close>.\<close>

theorem parse_records_nonneg_witness:
  "0 \<le> set_number \<lparr>set_number = 0, weight = Finite 70, reps = 5\<rparr> \<and>
   float_nonneg (weight \<lparr>set_number = 0, weight = Finite 70, reps = 5\<rparr>) \<and>
   0 \<le> reps \<lparr>set_number = 0, weight = Finite 70, reps = 5\<rparr>"
  using parse_records_nonneg [OF parse_set_zero, of "\<lparr>set_number = 0, weight = Finite 70, reps = 5\<rparr>"]
  by simp

text \<open>The bound \<open>set_number \<ge> 1\<close> of the claim fails: \<^verbatim>\<open>\d+\<close> matches \<^verbatim>\<open>0\<close>.\<close>

theorem parse_set_number_zero_counterexample:
  "parse_to_lifting_log default_max_str_digits ''Set 0 : 70x5''
     = Inr [\<lparr>set_number = 0, weight = Finite 70, reps = 5\<rparr>] \<and>
   \<not> 1 \<le> set_number \<lparr>set_number = 0, weight = Finite 70, reps = 5\<rparr>"
  using parse_set_zero by simp

text \<open>
  C9 (amended). \<open>parse_to_lifting_log\<close> returns a list of records, without raising, for every
  text in which no token's set number or reps is longer than the validator of integers accepts
  (4300 characters, and the interpreter's bound on digits); and whenever it raises, what it
  raises is the \<^verbatim>\<open>ValidationError\<close> of the record's constructor.
\<close>

theorem parse_total_within_limit:
  "((\<forall>n w r pre post. digits n \<and> digits w \<and> digits r \<and>
        s = pre @ render_token n w r @ post \<longrightarrow> \<not> too_long maxd n \<and> \<not> too_long maxd r) \<longrightarrow>
      (\<exists>ls. parse_to_lifting_log maxd s = Inr ls)) \<and>
   (\<forall>e. parse_to_lifting_log maxd s = Inl e \<longrightarrow> e = ValidationError)"
  using parse_returns [of s maxd] parse_error_kind [of maxd s] by blast

text \<open>A short text with one token and some debris, under the default bound and without one.\<close>

theorem parse_total_within_limit_witness:
  "(\<exists>ls. parse_to_lifting_log default_max_str_digits ''1RM Set 1 : 70x5 Set 2: 70x'' = Inr ls) \<and>
   (\<exists>ls. parse_to_lifting_log 0 ''1RM Set 1 : 70x5 Set 2: 70x'' = Inr ls)"
proof -
  have "\<not> too_long maxd n \<and> \<not> too_long maxd r"
    if "''1RM Set 1 : 70x5 Set 2: 70x'' = pre @ render_token n w r @ post" for n w r pre post maxd
    using token_shorter [OF that] by (simp add: too_long_def max_str_int_def exceeds_limit_def)
  then show ?thesis
    using parse_total_within_limit [of "''1RM Set 1 : 70x5 Set 2: 70x''" default_max_str_digits]
      parse_total_within_limit [of "''1RM Set 1 : 70x5 Set 2: 70x''" 0]
    by blast
qed

text \<open>
  A set number of 4301 digits makes the constructor of the record raise, under the default
  bound of the interpreter and also without any.
\<close>

theorem parse_raises_counterexample:
  "parse_to_lifting_log default_max_str_digits (''Set '' @ replicate 4301 CHR ''1'' @ '' : 1x1'')
     = Inl ValidationError \<and>
   parse_to_lifting_log 0 (''Set '' @ replicate 4301 CHR ''1'' @ '' : 1x1'') = Inl ValidationError"
  using parse_long_set_number [of default_max_str_digits] parse_long_set_number [of 0] by simp


section \<open>The extraction loop\<close>

lemma get_workout_page:
  assumes "receives env self username date soup"
  shows "get_workout_from_date env self username date sent =
     (case log_list soup of
        None \<Rightarrow> Inl AttributeError
      | Some workout \<Rightarrow> exercises_loop (int_max_str_digits env) (exercise_nodes workout) [],
      sent @ [logs_request self username date])"
  using assms
  by (auto simp: receives_def get_workout_from_date_def logs_request_def raise_for_status_def
      log_list_def exercise_nodes_def Let_def split: sum.splits option.splits)

lemma get_workout_http_error:
  assumes "send env (logs_request self username date) = Inr response"
    "\<not> is_success (status_code response)"
  shows "get_workout_from_date env self username date sent =
     (Inl (HTTPStatusError (status_code response)), sent @ [logs_request self username date])"
  using assms
  by (simp add: get_workout_from_date_def logs_request_def raise_for_status_def Let_def)

lemma loop_all_ok:
  "list_all2 (\<lambda>ex b. exercise_block maxd ex = Inr b) exs bs \<Longrightarrow>
   exercises_loop maxd exs acc = Inr (acc @ bs)"
  by (induction exs bs arbitrary: acc rule: list_all2_induct) auto

lemma loop_first_failure:
  "list_all2 (\<lambda>ex b. exercise_block maxd ex = Inr b) pre bs \<Longrightarrow>
   exercise_block maxd ex = Inl e \<Longrightarrow>
   exercises_loop maxd (pre @ ex # post) acc = Inl e"
  by (induction pre bs arbitrary: acc rule: list_all2_induct) auto

lemma loop_some_failure:
  "ex \<in> set exs \<Longrightarrow> exercise_block maxd ex = Inl e \<Longrightarrow>
   \<exists>e'. exercises_loop maxd exs acc = Inl e'"
  by (induction exs arbitrary: acc) (auto split: sum.splits)

lemma earlier_ok:
  "\<forall>x \<in> set pre. \<exists>b. exercise_block maxd x = Inr b \<Longrightarrow>
   \<exists>bs. list_all2 (\<lambda>ex b. exercise_block maxd ex = Inr b) pre bs"
proof (induction pre)
  case Nil
  then show ?case by simp
next
  case (Cons x pre)
  then obtain b bs where "exercise_block maxd x = Inr b"
    "list_all2 (\<lambda>ex b. exercise_block maxd ex = Inr b) pre bs" by auto
  then have "list_all2 (\<lambda>ex b. exercise_block maxd ex = Inr b) (x # pre) (b # bs)" by simp
  then show ?case by blast
qed

lemma block_wrong_count:
  "log_bar_blocks ex = Some blocks \<Longrightarrow> length blocks \<noteq> 4 \<Longrightarrow>
   exercise_block maxd ex = Inl AssertionError"
  by (auto simp: log_bar_blocks_def exercise_block_def split: option.splits list.splits)

lemma block_no_link:
  "log_bar_blocks ex = Some [picture, name, onerepmax, liftinglogs] \<Longrightarrow>
   soup_find (Some ''a'') [] name = None \<Longrightarrow>
   exercise_block maxd ex = Inl AttributeError"
  by (auto simp: log_bar_blocks_def exercise_block_def split: option.splits)

lemma block_ok:
  "log_bar_blocks ex = Some [picture, name, onerepmax, liftinglogs] \<Longrightarrow>
   soup_find (Some ''a'') [] name = Some a \<Longrightarrow>
   py_float (get_text onerepmax) = Inr orm \<Longrightarrow>
   parse_to_lifting_log maxd (get_text liftinglogs) = Inr logs \<Longrightarrow>
   exercise_block maxd ex =
     Inr \<lparr>exercise_name = py_strip (get_text a), one_rep_max = orm, lifting_logs = logs\<rparr>"
  by (auto simp: log_bar_blocks_def exercise_block_def split: option.splits)

subsection \<open>The example pages, evaluated\<close>

lemmas page_defs = bar_block_def exercise_div_def log_list_div_def page_def
  soup_find_def soup_findAll_def tag_matches_def get_text_def log_list_def exercise_nodes_def
  log_bar_blocks_def

lemma site_receives: "receives (site 200 soup) self username date soup"
  by (simp add: receives_def site_def is_success_def)

lemma page_log_list: "log_list (page exercises) = Some (log_list_div exercises)"
  by (simp add: page_defs)

lemma bench_press_blocks:
  "log_bar_blocks bench_press = Some
     [bar_block [Tag ''img'' [] []],
      bar_block [Tag ''a'' [] [NavigableString ''Bench Press'']],
      bar_block [NavigableString ''225''],
      bar_block [NavigableString ''Set 1 : 225x5 Set 2 : 225x5'']]"
  by (simp add: bench_press_def page_defs)

lemma three_blocks_blocks:
  "log_bar_blocks three_blocks = Some
     [bar_block [Tag ''img'' [] []],
      bar_block [Tag ''a'' [] [NavigableString ''Squat'']],
      bar_block [NavigableString ''315'']]"
  by (simp add: three_blocks_def page_defs)

lemma no_link_blocks:
  "log_bar_blocks no_link = Some
     [bar_block [Tag ''img'' [] []],
      bar_block [NavigableString ''Deadlift''],
      bar_block [NavigableString ''405''],
      bar_block [NavigableString ''Set 1 : 405x3'']]"
  by (simp add: no_link_def page_defs)

lemma no_number_blocks:
  "log_bar_blocks no_number = Some
     [bar_block [Tag ''img'' [] []],
      bar_block [Tag ''a'' [] [NavigableString ''Plank'']],
      bar_block [NavigableString ''N/A''],
      bar_block [NavigableString ''Set 1 : 0x60'']]"
  by (simp add: no_number_def page_defs)

lemma link_found:
  "soup_find (Some ''a'') [] (bar_block [Tag ''a'' [] [NavigableString s]])
     = Some (Tag ''a'' [] [NavigableString s])"
  by (simp add: page_defs)

lemma link_missing: "soup_find (Some ''a'') [] (bar_block [NavigableString s]) = None"
  by (simp add: page_defs)

lemma text_of_block: "get_text (bar_block [NavigableString s]) = s"
  by (simp add: page_defs)

lemma text_of_link: "get_text (Tag ''a'' [] [NavigableString s]) = s"
  by (simp add: page_defs)

lemma strip_bench: "py_strip ''Bench Press'' = ''Bench Press''"
  by (simp add: py_strip_def is_space_def)

lemma float_225: "py_float ''225'' = Inr (Finite 225)"
  using py_float_digits [of "''225''"]
  by (simp add: digits_def is_digit_def decimal_def digit_value_def round64_numeral)

lemma float_na: "py_float ''N/A'' = Inl ValueError"
  by (simp add: py_float_def num_strip_def to_ascii_def is_c_space_def split_sign_def lower_def
      parse_number_def digitpart_def is_digit_def)

lemma parse_bench:
  "parse_to_lifting_log default_max_str_digits ''Set 1 : 225x5 Set 2 : 225x5''
     = Inr [\<lparr>set_number = 1, weight = Finite 225, reps = 5\<rparr>,
            \<lparr>set_number = 2, weight = Finite 225, reps = 5\<rparr>]"
  using parse_log_text [of default_max_str_digits
      "[((''1'', ''225'', ''5''), '' ''), ((''2'', ''225'', ''5''), '''')]"]
  by (simp add: token_eval round64_numeral)

lemma bench_press_record:
  "exercise_block default_max_str_digits bench_press =
     Inr \<lparr>exercise_name = ''Bench Press'', one_rep_max = Finite 225,
          lifting_logs = [\<lparr>set_number = 1, weight = Finite 225, reps = 5\<rparr>,
                          \<lparr>set_number = 2, weight = Finite 225, reps = 5\<rparr>]\<rparr>"
  using block_ok [OF bench_press_blocks link_found, of "Finite 225" default_max_str_digits]
  by (simp add: text_of_block text_of_link strip_bench float_225 parse_bench)

lemma no_number_fails: "exercise_block default_max_str_digits no_number = Inl ValueError"
  using no_number_blocks
  by (simp add: log_bar_blocks_def exercise_block_def link_found text_of_block float_na
      split: option.splits)

lemma exercises_of_page:
  "exercise_nodes (log_list_div [bench_press, incline_press]) = [bench_press, incline_press]"
  "exercise_nodes (log_list_div [bench_press, three_blocks]) = [bench_press, three_blocks]"
  "exercise_nodes (log_list_div [no_number, three_blocks]) = [no_number, three_blocks]"
  "exercise_nodes (log_list_div [bench_press, no_link]) = [bench_press, no_link]"
  "exercise_nodes (log_list_div [three_blocks, no_link]) = [three_blocks, no_link]"
  "exercise_nodes (log_list_div [no_link]) = [no_link]"
  "exercise_nodes (log_list_div [no_number]) = [no_number]"
  "exercise_nodes (log_list_div [long_set]) = [long_set]"
  by (simp_all add: bench_press_def incline_press_def incline_link_def three_blocks_def
      no_number_def no_link_def long_set_def page_defs)

lemma incline_press_blocks:
  "log_bar_blocks incline_press = Some
     [bar_block [Tag ''img'' [] []],
      bar_block [NavigableString '' '', incline_link, Tag ''a'' [] [NavigableString ''history'']],
      bar_block [Comment ''1RM'', NavigableString '' 1.3'', Tag ''span'' [] [NavigableString ''5e2 '']],
      bar_block [NavigableString ''Set 2 : 95x8 Set 1 : 100x6'']]"
  by (simp add: incline_press_def incline_link_def page_defs)

lemma incline_link_found:
  "soup_find (Some ''a'') []
     (bar_block [NavigableString '' '', incline_link, Tag ''a'' [] [NavigableString ''history'']])
     = Some incline_link"
  by (simp add: incline_link_def page_defs)

lemma incline_texts:
  "get_text incline_link = ''  Incline Press ''"
  "get_text (bar_block [Comment ''1RM'', NavigableString '' 1.3'',
      Tag ''span'' [] [NavigableString ''5e2 '']]) = '' 1.35e2 ''"
  by (simp_all add: incline_link_def page_defs)

lemma long_set_blocks:
  "log_bar_blocks long_set = Some
     [bar_block [Tag ''img'' [] []],
      bar_block [Tag ''a'' [] [NavigableString ''Curl'']],
      bar_block [NavigableString ''80''],
      bar_block [NavigableString (''Set '' @ replicate 4301 CHR ''1'' @ '' : 1x1'')]]"
  by (simp add: long_set_def page_defs)

lemma strip_incline: "py_strip ''  Incline Press '' = ''Incline Press''"
  by (simp add: py_strip_def is_space_def)

lemma float_135: "py_float '' 1.35e2 '' = Inr (Finite 135)"
  by (simp add: py_float_def num_strip_def to_ascii_def is_c_space_def split_sign_def lower_def
      parse_number_def parse_exponent_def digitpart_def is_digit_def decimal_def digit_value_def
      round64_numeral)

lemma float_80: "py_float ''80'' = Inr (Finite 80)"
  using py_float_digits [of "''80''"]
  by (simp add: digits_def is_digit_def decimal_def digit_value_def round64_numeral)

lemma parse_incline:
  "parse_to_lifting_log default_max_str_digits ''Set 2 : 95x8 Set 1 : 100x6''
     = Inr [\<lparr>set_number = 2, weight = Finite 95, reps = 8\<rparr>,
            \<lparr>set_number = 1, weight = Finite 100, reps = 6\<rparr>]"
  using parse_log_text [of default_max_str_digits
      "[((''2'', ''95'', ''8''), '' ''), ((''1'', ''100'', ''6''), [])]"]
  by (simp add: token_eval round64_numeral)

lemma incline_press_record:
  "exercise_block default_max_str_digits incline_press =
     Inr \<lparr>exercise_name = ''Incline Press'', one_rep_max = Finite 135,
          lifting_logs = [\<lparr>set_number = 2, weight = Finite 95, reps = 8\<rparr>,
                          \<lparr>set_number = 1, weight = Finite 100, reps = 6\<rparr>]\<rparr>"
  using block_ok [OF incline_press_blocks incline_link_found, of "Finite 135" default_max_str_digits]
  by (simp add: text_of_block incline_texts strip_incline float_135 parse_incline)

lemma no_link_fails_block: "exercise_block maxd no_link = Inl AttributeError"
  using no_link_blocks link_missing by (rule block_no_link)

lemma long_set_fails: "exercise_block maxd long_set = Inl ValidationError"
  using long_set_blocks parse_long_set_number [of maxd]
  by (simp add: log_bar_blocks_def exercise_block_def link_found text_of_block float_80
      split: option.splits)

lemma loop_first_failing:
  "exercises_loop maxd exs acc = Inl e \<Longrightarrow>
   \<exists>pre x post. exs = pre @ x # post \<and>
      (\<forall>y \<in> set pre. \<exists>b. exercise_block maxd y = Inr b) \<and> exercise_block maxd x = Inl e"
proof (induction exs arbitrary: acc)
  case Nil
  then show ?case by simp
next
  case (Cons a exs)
  show ?case
  proof (cases "exercise_block maxd a")
    case (Inl e')
    then have "a # exs = [] @ a # exs \<and> (\<forall>y \<in> set []. \<exists>b. exercise_block maxd y = Inr b) \<and>
      exercise_block maxd a = Inl e" using Cons.prems by simp
    then show ?thesis by blast
  next
    case (Inr b)
    then have "exercises_loop maxd exs (acc @ [b]) = Inl e" using Cons.prems by simp
    from Cons.IH [OF this] obtain pre x post where
      h: "exs = pre @ x # post" "\<forall>y \<in> set pre. \<exists>b. exercise_block maxd y = Inr b"
        "exercise_block maxd x = Inl e" by blast
    then have "a # exs = (a # pre) @ x # post \<and>
      (\<forall>y \<in> set (a # pre). \<exists>b. exercise_block maxd y = Inr b) \<and> exercise_block maxd x = Inl e"
      using Inr by simp
    then show ?thesis by blast
  qed
qed

lemma block_failure_aborts:
  assumes "receives env self username date soup" "log_list soup = Some workout"
    "exercise_nodes workout = pre @ ex # post"
    "exercise_block (int_max_str_digits env) ex = Inl err"
  shows "(\<exists>e pre' x post'. exercise_nodes workout = pre' @ x # post' \<and>
        (\<forall>y \<in> set pre'. \<exists>b. exercise_block (int_max_str_digits env) y = Inr b) \<and>
        exercise_block (int_max_str_digits env) x = Inl e \<and>
        fst (get_workout_from_date env self username date sent) = Inl e) \<and>
     ((\<forall>x \<in> set pre. \<exists>b. exercise_block (int_max_str_digits env) x = Inr b) \<longrightarrow>
        fst (get_workout_from_date env self username date sent) = Inl err)"
proof -
  let ?maxd = "int_max_str_digits env"
  have r: "fst (get_workout_from_date env self username date sent)
      = exercises_loop ?maxd (pre @ ex # post) []"
    using get_workout_page [OF assms(1)] assms(2,3) by simp
  obtain e where e: "exercises_loop ?maxd (pre @ ex # post) [] = Inl e"
    using loop_some_failure [OF _ assms(4), of "pre @ ex # post"] by auto
  from loop_first_failing [OF e] obtain pre' x post' where
    "pre @ ex # post = pre' @ x # post'"
    "\<forall>y \<in> set pre'. \<exists>b. exercise_block ?maxd y = Inr b" "exercise_block ?maxd x = Inl e"
    by blast
  then have "\<exists>e pre' x post'. exercise_nodes workout = pre' @ x # post' \<and>
        (\<forall>y \<in> set pre'. \<exists>b. exercise_block ?maxd y = Inr b) \<and>
        exercise_block ?maxd x = Inl e \<and>
        fst (get_workout_from_date env self username date sent) = Inl e"
    using r e assms(3) by auto
  moreover have "exercises_loop ?maxd (pre @ ex # post) [] = Inl err"
    if "\<forall>x \<in> set pre. \<exists>b. exercise_block ?maxd x = Inr b"
    using earlier_ok [OF that] loop_first_failure [OF _ assms(4)] by blast
  ultimately show ?thesis using r by simp
qed

section \<open>Claims about the workout extractor\<close>

text \<open>
  C2 (amended). When some exercise block of the page holds a number of ``log bar block''
  elements other than four (counted, as the code does, in the block's ``fixed log bar''),
  \<open>get_workout_from_date\<close> fails and returns no record at all, not even for the blocks that
  would have parsed. The failure is the error of the first exercise block, in document order,
  whose extraction fails; it is the violated assertion whenever every exercise block before
  that one is extracted without error.
\<close>

theorem wrong_block_count_fails:
  assumes "receives env self username date soup" "log_list soup = Some workout"
    "exercise_nodes workout = pre @ ex # post"
    "log_bar_blocks ex = Some blocks" "length blocks \<noteq> 4"
  shows "(\<exists>e pre' x post'. exercise_nodes workout = pre' @ x # post' \<and>
        (\<forall>y \<in> set pre'. \<exists>b. exercise_block (int_max_str_digits env) y = Inr b) \<and>
        exercise_block (int_max_str_digits env) x = Inl e \<and>
        fst (get_workout_from_date env self username date sent) = Inl e) \<and>
     ((\<forall>x \<in> set pre. \<exists>b. exercise_block (int_max_str_digits env) x = Inr b) \<longrightarrow>
        fst (get_workout_from_date env self username date sent) = Inl AssertionError)"
  using assms(1-3) block_wrong_count [OF assms(4,5)] by (rule block_failure_aborts)

text \<open>The fixture's block followed by a block of three sub-blocks.\<close>

theorem wrong_block_count_fails_witness:
  "fst (get_workout_from_date (site 200 (page [bench_press, three_blocks])) client
          ''wstipp'' ''2023-01-14'' []) = Inl AssertionError"
  using wrong_block_count_fails [where env = "site 200 (page [bench_press, three_blocks])"
      and soup = "page [bench_press, three_blocks]" and self = client and username = "''wstipp''"
      and date = "''2023-01-14''" and sent = "[]"
      and workout = "log_list_div [bench_press, three_blocks]"
      and pre = "[bench_press]" and ex = three_blocks and post = "[]",
      OF site_receives page_log_list _ three_blocks_blocks]
  by (simp add: exercises_of_page site_def bench_press_record)

text \<open>
  The claim as stated names the structural failure for every such page; when an earlier block
  fails otherwise (here its one-rep-max is \<^verbatim>\<open>N/A\<close>), that error is raised instead.
\<close>

theorem wrong_block_count_counterexample:
  "map_option length (log_bar_blocks three_blocks) = Some 3 \<and>
   fst (get_workout_from_date (site 200 (page [no_number, three_blocks])) client
          ''wstipp'' ''2023-01-14'' []) = Inl ValueError"
  using get_workout_page [OF site_receives, of "page [no_number, three_blocks]"]
  by (simp add: page_log_list exercises_of_page three_blocks_blocks site_def no_number_fails)

text \<open>
  C3 (amended). When every exercise block below the ``log list'' container has exactly four
  sub-blocks (picture, name, one-rep-max, logs text), the name block holds a link, the text of
  the one-rep-max block is a number that \<^verbatim>\<open>float\<close> accepts and the text of the logs block is
  one that \<open>parse_to_lifting_log\<close> accepts, the function returns one record for each exercise
  block, in document order: \<open>exercise_name\<close> is the stripped text of the first link in the
  name block, \<open>one_rep_max\<close> the float value of the one-rep-max block's text, \<open>lifting_logs\<close>
  the result of \<open>parse_to_lifting_log\<close> on the text of the logs block.
\<close>

theorem get_workout_records:
  assumes "receives env self username date soup" "log_list soup = Some workout"
    "list_all2 (\<lambda>ex b. \<exists>picture name onerepmax liftinglogs a.
        log_bar_blocks ex = Some [picture, name, onerepmax, liftinglogs] \<and>
        soup_find (Some ''a'') [] name = Some a \<and>
        exercise_name b = py_strip (get_text a) \<and>
        py_float (get_text onerepmax) = Inr (one_rep_max b) \<and>
        parse_to_lifting_log (int_max_str_digits env) (get_text liftinglogs)
          = Inr (lifting_logs b))
      (exercise_nodes workout) bs"
  shows "fst (get_workout_from_date env self username date sent) = Inr bs"
proof -
  have "list_all2 (\<lambda>ex b. exercise_block (int_max_str_digits env) ex = Inr b)
      (exercise_nodes workout) bs"
    using assms(3)
  proof (rule list_all2_mono)
    fix ex and b :: ExerciseBlock
    assume "\<exists>picture name onerepmax liftinglogs a.
        log_bar_blocks ex = Some [picture, name, onerepmax, liftinglogs] \<and>
        soup_find (Some ''a'') [] name = Some a \<and>
        exercise_name b = py_strip (get_text a) \<and>
        py_float (get_text onerepmax) = Inr (one_rep_max b) \<and>
        parse_to_lifting_log (int_max_str_digits env) (get_text liftinglogs)
          = Inr (lifting_logs b)"
    then obtain picture name onerepmax liftinglogs a where
      h: "log_bar_blocks ex = Some [picture, name, onerepmax, liftinglogs]"
        "soup_find (Some ''a'') [] name = Some a"
        "exercise_name b = py_strip (get_text a)"
        "py_float (get_text onerepmax) = Inr (one_rep_max b)"
        "parse_to_lifting_log (int_max_str_digits env) (get_text liftinglogs)
           = Inr (lifting_logs b)" by blast
    from block_ok [OF h(1,2,4,5)] h(3)
    show "exercise_block (int_max_str_digits env) ex = Inr b" by simp
  qed
  from loop_all_ok [OF this, of "[]"] show ?thesis
    using get_workout_page [OF assms(1)] assms(2) by simp
qed

text \<open>
  The fixture, one exercise block with the sub-blocks \<^verbatim>\<open><img>\<close>, \<^verbatim>\<open><a>Bench Press</a>\<close>,
  \<^verbatim>\<open>225\<close> and \<^verbatim>\<open>Set 1 : 225x5 Set 2 : 225x5\<close>, followed by the block \<open>incline_press\<close>:
  the name is the stripped text of the first of its two links, the one-rep-max the value of
  \<^verbatim>\<open>1.35e2\<close>.
\<close>

theorem get_workout_records_witness:
  "fst (get_workout_from_date (site 200 (page [bench_press, incline_press])) client
          ''wstipp'' ''2023-01-14'' [])
     = Inr [\<lparr>exercise_name = ''Bench Press'', one_rep_max = Finite 225,
             lifting_logs = [\<lparr>set_number = 1, weight = Finite 225, reps = 5\<rparr>,
                             \<lparr>set_number = 2, weight = Finite 225, reps = 5\<rparr>]\<rparr>,
            \<lparr>exercise_name = ''Incline Press'', one_rep_max = Finite 135,
             lifting_logs = [\<lparr>set_number = 2, weight = Finite 95, reps = 8\<rparr>,
                             \<lparr>set_number = 1, weight = Finite 100, reps = 6\<rparr>]\<rparr>]"
proof -
  have "list_all2 (\<lambda>ex b. \<exists>picture name onerepmax liftinglogs a.
        log_bar_blocks ex = Some [picture, name, onerepmax, liftinglogs] \<and>
        soup_find (Some ''a'') [] name = Some a \<and>
        exercise_name b = py_strip (get_text a) \<and>
        py_float (get_text onerepmax) = Inr (one_rep_max b) \<and>
        parse_to_lifting_log (int_max_str_digits (site 200 (page [bench_press, incline_press])))
          (get_text liftinglogs) = Inr (lifting_logs b))
      (exercise_nodes (log_list_div [bench_press, incline_press]))
      [\<lparr>exercise_name = ''Bench Press'', one_rep_max = Finite 225,
        lifting_logs = [\<lparr>set_number = 1, weight = Finite 225, reps = 5\<rparr>,
                        \<lparr>set_number = 2, weight = Finite 225, reps = 5\<rparr>]\<rparr>,
       \<lparr>exercise_name = ''Incline Press'', one_rep_max = Finite 135,
        lifting_logs = [\<lparr>set_number = 2, weight = Finite 95, reps = 8\<rparr>,
                        \<lparr>set_number = 1, weight = Finite 100, reps = 6\<rparr>]\<rparr>]"
    using bench_press_blocks link_found [of "''Bench Press''"]
      incline_press_blocks incline_link_found
    by (simp add: exercises_of_page site_def text_of_block text_of_link incline_texts strip_bench
        float_225 parse_bench strip_incline float_135 parse_incline)
  from get_workout_records [OF site_receives page_log_list this] show ?thesis .
qed

text \<open>
  The claim as stated promises the records for every page whose exercise blocks have the four
  sub-blocks. Three pages of one such block fail: the name block without a link, the
  one-rep-max \<^verbatim>\<open>N/A\<close>, and the set number of 4301 digits.
\<close>

theorem get_workout_records_counterexample:
  "map_option length (log_bar_blocks no_link) = Some 4 \<and>
   fst (get_workout_from_date (site 200 (page [no_link])) client ''wstipp'' ''2023-01-14'' [])
     = Inl AttributeError \<and>
   map_option length (log_bar_blocks no_number) = Some 4 \<and>
   fst (get_workout_from_date (site 200 (page [no_number])) client ''wstipp'' ''2023-01-14'' [])
     = Inl ValueError \<and>
   map_option length (log_bar_blocks long_set) = Some 4 \<and>
   fst (get_workout_from_date (site 200 (page [long_set])) client ''wstipp'' ''2023-01-14'' [])
     = Inl ValidationError"
  using get_workout_page [OF site_receives, of "page [no_link]"]
    get_workout_page [OF site_receives, of "page [no_number]"]
    get_workout_page [OF site_receives, of "page [long_set]"]
  by (simp add: page_log_list exercises_of_page no_link_blocks no_number_blocks long_set_blocks
      no_link_fails_block no_number_fails long_set_fails site_def)

text \<open>
  C4. When the status of the response is a client or server error, the function fails with
  the HTTP error, which reaches the caller; it has sent its one request and sends no other.
\<close>

theorem http_error_propagates:
  assumes "send env (logs_request self username date) = Inr response"
    "400 \<le> status_code response" "status_code response \<le> 599"
  shows "get_workout_from_date env self username date sent =
     (Inl (HTTPStatusError (status_code response)), sent @ [logs_request self username date])"
  using assms(2) by (intro get_workout_http_error [OF assms(1)]) (simp add: is_success_def)

text \<open>Status 404.\<close>

theorem http_error_propagates_witness:
  "get_workout_from_date (site 404 (page [bench_press])) client ''wstipp'' ''2023-01-14'' []
     = (Inl (HTTPStatusError 404),
        [\<lparr>url = ''https://www.jefit.com/members/user-logs/log/'',
          params = [(''xid'', ''wstipp''), (''dd'', ''2023-01-14'')]\<rparr>])"
  using http_error_propagates [of "site 404 (page [bench_press])" client "''wstipp''" "''2023-01-14''"
      "\<lparr>status_code = 404, content = []\<rparr>" "[]"]
  by (simp add: site_def logs_request_def client_def DEFAULT_JEFIT_CONFIG_def LOGS_BASE_URL_def)

text \<open>
  C7. When the page has no ``log list'' container, the function does not return the empty
  list: it fails on the attribute access of \<^verbatim>\<open>None\<close>, whatever the reason for the absence.
\<close>

theorem no_log_list_fails:
  assumes "receives env self username date soup" "log_list soup = None"
  shows "fst (get_workout_from_date env self username date sent) = Inl AttributeError \<and>
     fst (get_workout_from_date env self username date sent) \<noteq> Inr []"
  using get_workout_page [OF assms(1)] assms(2) by simp

text \<open>A page that only says that there are no logs.\<close>

theorem no_log_list_fails_witness:
  "fst (get_workout_from_date (site 200 (Tag ''[document]'' [] [Tag ''p'' [] [NavigableString ''No logs'']]))
          client ''wstipp'' ''2023-01-14'' []) = Inl AttributeError"
  using no_log_list_fails [OF site_receives, of "Tag ''[document]'' [] [Tag ''p'' [] [NavigableString ''No logs'']]"]
  by (simp add: page_defs)

text \<open>
  C10 (amended). When an exercise block has exactly four sub-blocks and its name sub-block
  holds no link, the function fails and returns no record (never a record with an empty name).
  The failure is the error of the first exercise block, in document order, whose extraction
  fails; it is the attribute access of \<^verbatim>\<open>None\<close> whenever every exercise block before that
  one is extracted without error.
\<close>

theorem no_link_fails:
  assumes "receives env self username date soup" "log_list soup = Some workout"
    "exercise_nodes workout = pre @ ex # post"
    "log_bar_blocks ex = Some [picture, name, onerepmax, liftinglogs]"
    "soup_find (Some ''a'') [] name = None"
  shows "(\<exists>e pre' x post'. exercise_nodes workout = pre' @ x # post' \<and>
        (\<forall>y \<in> set pre'. \<exists>b. exercise_block (int_max_str_digits env) y = Inr b) \<and>
        exercise_block (int_max_str_digits env) x = Inl e \<and>
        fst (get_workout_from_date env self username date sent) = Inl e) \<and>
     ((\<forall>x \<in> set pre. \<exists>b. exercise_block (int_max_str_digits env) x = Inr b) \<longrightarrow>
        fst (get_workout_from_date env self username date sent) = Inl AttributeError)"
  using assms(1-3) block_no_link [OF assms(4,5)] by (rule block_failure_aborts)

text \<open>The fixture's block followed by a block whose name has no link.\<close>

theorem no_link_fails_witness:
  "fst (get_workout_from_date (site 200 (page [bench_press, no_link])) client
          ''wstipp'' ''2023-01-14'' []) = Inl AttributeError"
  using no_link_fails [where env = "site 200 (page [bench_press, no_link])"
      and soup = "page [bench_press, no_link]" and self = client and username = "''wstipp''"
      and date = "''2023-01-14''" and sent = "[]"
      and workout = "log_list_div [bench_press, no_link]"
      and pre = "[bench_press]" and ex = no_link and post = "[]",
      OF site_receives page_log_list _ no_link_blocks link_missing]
  by (simp add: exercises_of_page site_def bench_press_record)

text \<open>
  The claim as stated excludes the structural failure for every such page; when an earlier
  block has three sub-blocks, the violated assertion is what the function raises.
\<close>

theorem no_link_counterexample:
  "log_bar_blocks no_link = Some
     [bar_block [Tag ''img'' [] []], bar_block [NavigableString ''Deadlift''],
      bar_block [NavigableString ''405''], bar_block [NavigableString ''Set 1 : 405x3'']] \<and>
   soup_find (Some ''a'') [] (bar_block [NavigableString ''Deadlift'']) = None \<and>
   fst (get_workout_from_date (site 200 (page [three_blocks, no_link])) client
          ''wstipp'' ''2023-01-14'' []) = Inl AssertionError"
  using get_workout_page [OF site_receives, of "page [three_blocks, no_link]"]
    block_wrong_count [OF three_blocks_blocks, of default_max_str_digits]
  by (simp add: page_log_list exercises_of_page no_link_blocks link_missing site_def)

end
